theory Spec2Isabelle
  imports Complex_Main "HOL-Library.Char_ord"
begin

section \<open>Exceptions\<close>

text \<open>
  Every exception class the scrapers, the model and the storage raise or catch, with the
  message it carries. \<open>RequestException\<close> stands for the transport failures that
  \<open>requests\<close> reports (connection errors, timeouts, HTTP error statuses);
  \<open>OtherException\<close> for any exception that is not a \<open>RequestException\<close>.
  \<open>ScrapingError\<close>, \<open>RateLimitError\<close> and \<open>RobotsTxtError\<close> are subclasses of
  \<open>ScraperError\<close> (exceptions/exceptions.py).
\<close>

datatype error =
    ValueError string
  | TypeError string
  | AttributeError string
  | IndexError string
  | RequestException string
  | OtherException string
  | ScraperError string
  | ScrapingError string
  | RobotsTxtError string
  | StorageError string

text \<open>\<open>str(e)\<close>: the message of an exception.\<close>

fun str_error :: "error \<Rightarrow> string" where
  "str_error (ValueError m) = m"
| "str_error (TypeError m) = m"
| "str_error (AttributeError m) = m"
| "str_error (IndexError m) = m"
| "str_error (RequestException m) = m"
| "str_error (OtherException m) = m"
| "str_error (ScraperError m) = m"
| "str_error (ScrapingError m) = m"
| "str_error (RobotsTxtError m) = m"
| "str_error (StorageError m) = m"

text \<open>\<open>isinstance(e, requests.exceptions.RequestException)\<close>.\<close>

fun is_request_exception :: "error \<Rightarrow> bool" where
  "is_request_exception (RequestException m) = True"
| "is_request_exception e = False"

section \<open>The Story model (models/story.py)\<close>

text \<open>
  A naive \<open>datetime\<close> value, by its fields. The model never computes with the fields: the
  conversions from and to text are functions of the Python library, passed in below.
\<close>

record datetime =
  year :: nat
  month :: nat
  day :: nat
  hour :: nat
  minute :: nat
  second :: nat
  microsecond :: nat

text \<open>
  The value of the \<open>time\<close> attribute of a Story. The parser always passes a
  \<open>datetime\<close>; \<open>Story.from_dict\<close> leaves a null or empty \<open>time\<close> entry of the document
  as it is, so the attribute can also hold \<open>None\<close> or a string.
\<close>

datatype pytime = NoneTime | StrTime string | DateTime datetime

text \<open>
  The dataclass \<open>Story\<close>. \<open>url\<close> and \<open>story_id\<close> come from \<open>Tag.get\<close>, which returns
  \<open>None\<close> for an absent attribute, so they are optional strings.
\<close>

record story =
  title :: string
  url :: "string option"
  points :: int
  username :: string
  comment_count :: int
  story_id :: "string option"
  time :: pytime

text \<open>Python's \<open>not x\<close> for an optional string: true of \<open>None\<close> and of the empty string.\<close>

fun py_not :: "string option \<Rightarrow> bool" where
  "py_not None = True"
| "py_not (Some s) = (s = [])"

text \<open>The text an f-string puts for an optional string: \<open>None\<close> prints as \<open>None\<close>.\<close>

fun py_format :: "string option \<Rightarrow> string" where
  "py_format None = ''None''"
| "py_format (Some s) = s"

text \<open>
  \<open>Story.__post_init__\<close>, which runs at the end of every construction of a Story,
  statement by statement: the two checks raise \<open>ValueError\<close>, the four defaulting rules
  assign to the object in between.
\<close>

definition post_init :: "story \<Rightarrow> error + story" where
  "post_init s0 =
     (if title s0 = [] then Inl (ValueError ''Story title cannot be empty'')
      else
        let s1 = (if py_not (url s0)
                  then s0\<lparr>url := Some (''https://news.ycombinator.com/item?id='' @ py_format (story_id s0))\<rparr>
                  else s0);
            s2 = (if points s1 < 0 then s1\<lparr>points := 0\<rparr> else s1);
            s3 = (if username s2 = [] then s2\<lparr>username := ''unknown''\<rparr> else s2);
            s4 = (if comment_count s3 < 0 then s3\<lparr>comment_count := 0\<rparr> else s3)
        in if py_not (story_id s4) then Inl (ValueError ''Story ID cannot be empty'')
           else Inr s4)"

subsection \<open>The derived domain\<close>

text \<open>
  \<open>urllib.parse.urlparse(url).netloc\<close> of the Python standard library (CPython 3.11),
  after \<open>urlsplit\<close>. The characters from \<open>U+0000\<close> to the space are stripped from the
  left of the url, and every tab, carriage return and line feed is removed from it.
\<close>

definition url_cleaned :: "string \<Rightarrow> string" where
  "url_cleaned u =
     filter (\<lambda>c. (of_char c :: nat) \<notin> {9, 10, 13})
       (dropWhile (\<lambda>c. (of_char c :: nat) \<le> 32) u)"

text \<open>
  A leading scheme (a letter, then letters, digits, \<open>+\<close>, \<open>-\<close>, \<open>.\<close>, up to the first
  colon) is split off.
\<close>

definition is_ascii_alpha :: "char \<Rightarrow> bool" where
  "is_ascii_alpha c =
     ((CHR ''a'' \<le> c \<and> c \<le> CHR ''z'') \<or> (CHR ''A'' \<le> c \<and> c \<le> CHR ''Z''))"

definition is_scheme_char :: "char \<Rightarrow> bool" where
  "is_scheme_char c =
     (is_ascii_alpha c \<or> (CHR ''0'' \<le> c \<and> c \<le> CHR ''9'') \<or> c \<in> set ''+-.'')"

definition split_scheme :: "string \<Rightarrow> string" where
  "split_scheme u =
     (let pre = takeWhile (\<lambda>c. c \<noteq> CHR '':'') u
      in if pre \<noteq> [] \<and> length pre < length u \<and> is_ascii_alpha (hd pre)
            \<and> list_all is_scheme_char pre
         then drop (Suc (length pre)) u
         else u)"

text \<open>\<open>s.split(c)\<close>: the pieces of \<open>s\<close> between the occurrences of \<open>c\<close>.\<close>

fun py_split :: "char \<Rightarrow> string \<Rightarrow> string list" where
  "py_split c [] = [[]]"
| "py_split c (x # xs) =
     (if x = c then [] # py_split c xs
      else (case py_split c xs of [] \<Rightarrow> [[x]] | p # ps \<Rightarrow> (x # p) # ps))"

text \<open>
  The texts that \<open>ipaddress.IPv4Address\<close> accepts: no slash, four pieces between the
  dots, and each piece an octet for \<open>_parse_octet\<close>: one to three decimal digits, no
  leading zero but in \<open>0\<close> itself, and a value of at most 255.
\<close>

definition is_ascii_digit :: "char \<Rightarrow> bool" where
  "is_ascii_digit c = (CHR ''0'' \<le> c \<and> c \<le> CHR ''9'')"

definition decimal :: "string \<Rightarrow> nat" where
  "decimal s = foldl (\<lambda>n c. 10 * n + (of_char c - 48)) 0 s"

definition valid_octet :: "string \<Rightarrow> bool" where
  "valid_octet octet_str =
     (octet_str \<noteq> [] \<and> list_all is_ascii_digit octet_str \<and> length octet_str \<le> 3
      \<and> \<not> (octet_str \<noteq> ''0'' \<and> hd octet_str = CHR ''0'') \<and> decimal octet_str \<le> 255)"

definition valid_ipv4 :: "string \<Rightarrow> bool" where
  "valid_ipv4 ip_str =
     (CHR ''/'' \<notin> set ip_str \<and> ip_str \<noteq> []
      \<and> length (py_split CHR ''.'' ip_str) = 4
      \<and> list_all valid_octet (py_split CHR ''.'' ip_str))"

text \<open>
  The texts that \<open>ipaddress.IPv6Address\<close> accepts. A hextet for \<open>_parse_hextet\<close> is one
  to four hexadecimal digits. \<open>_ip_int_from_string\<close> takes the pieces between the
  colons, at least three; a last piece with a dot has to be an IPv4 address and counts as
  two hextets; there are at most nine pieces; at most one piece other than the first and
  the last is empty (the \<open>::\<close>). Without such a piece there are eight hextets. With it,
  an empty first piece has to stand right before it and an empty last piece right after
  it, the pieces before and after it are hextets, and there are at most seven of them.
\<close>

definition is_hex_char :: "char \<Rightarrow> bool" where
  "is_hex_char c =
     ((CHR ''0'' \<le> c \<and> c \<le> CHR ''9'') \<or> (CHR ''a'' \<le> c \<and> c \<le> CHR ''f'')
      \<or> (CHR ''A'' \<le> c \<and> c \<le> CHR ''F''))"

definition valid_hextet :: "string \<Rightarrow> bool" where
  "valid_hextet hextet_str =
     (list_all is_hex_char hextet_str \<and> length hextet_str \<le> 4 \<and> hextet_str \<noteq> [])"

definition valid_ipv6_groups :: "string \<Rightarrow> bool" where
  "valid_ipv6_groups ip_str =
     (let parts0 = py_split CHR '':'' ip_str
      in if ip_str = [] \<or> length parts0 < 3 then False
         else if CHR ''.'' \<in> set (last parts0) \<and> \<not> valid_ipv4 (last parts0) then False
         else
           let parts = (if CHR ''.'' \<in> set (last parts0) then butlast parts0 @ [''0'', ''0'']
                        else parts0);
               skips = filter (\<lambda>i. parts ! i = []) [1 ..< length parts - 1]
           in if 9 < length parts then False
              else if 1 < length skips then False
              else if skips = []
              then length parts = 8 \<and> hd parts \<noteq> [] \<and> last parts \<noteq> []
                   \<and> list_all valid_hextet parts
              else
                let skip_index = hd skips;
                    parts_hi = (if hd parts = [] then skip_index - 1 else skip_index);
                    parts_lo = (if last parts = [] then length parts - skip_index - 1 - 1
                                else length parts - skip_index - 1)
                in \<not> (hd parts = [] \<and> parts_hi \<noteq> 0) \<and> \<not> (last parts = [] \<and> parts_lo \<noteq> 0)
                   \<and> parts_hi + parts_lo \<le> 7
                   \<and> list_all valid_hextet (take parts_hi parts)
                   \<and> list_all valid_hextet (drop (length parts - parts_lo) parts))"

text \<open>
  An IPv6 address can end in a scope: a \<open>%\<close> followed by a non-empty text without
  \<open>%\<close>.
\<close>

definition valid_ipv6 :: "string \<Rightarrow> bool" where
  "valid_ipv6 addr_str =
     (let addr = takeWhile (\<lambda>c. c \<noteq> CHR ''%'') addr_str;
          scope = dropWhile (\<lambda>c. c \<noteq> CHR ''%'') addr_str
      in CHR ''/'' \<notin> set addr_str
         \<and> (scope = [] \<or> (tl scope \<noteq> [] \<and> CHR ''%'' \<notin> set (tl scope)))
         \<and> valid_ipv6_groups addr)"

text \<open>
  \<open>_check_bracketed_host\<close>, true where it returns and false where it raises
  \<open>ValueError\<close>: a host that starts with \<open>v\<close> has to be a \<open>v\<close>, one or more
  hexadecimal digits, a dot and one or more characters other than a line feed; any other
  host has to be a text that \<open>ipaddress.ip_address\<close> reads as an address, and not as an
  IPv4 address.
\<close>

definition is_ipvfuture :: "string \<Rightarrow> bool" where
  "is_ipvfuture h =
     (let hex = takeWhile is_hex_char (drop 1 h);
          rest = drop (Suc (length hex)) h
      in take 1 h = ''v'' \<and> hex \<noteq> [] \<and> take 1 rest = ''.'' \<and> drop 1 rest \<noteq> []
         \<and> list_all (\<lambda>c. (of_char c :: nat) \<noteq> 10) (drop 1 rest))"

definition check_bracketed_host :: "string \<Rightarrow> bool" where
  "check_bracketed_host hostname =
     (if take 1 hostname = ''v'' then is_ipvfuture hostname
      else \<not> valid_ipv4 hostname \<and> valid_ipv6 hostname)"

text \<open>
  The network location: if what follows the scheme starts with \<open>//\<close>, it is the text
  after that up to the first \<open>/\<close>, \<open>?\<close> or \<open>#\<close>; otherwise it is empty. Square brackets
  in it have to come in a pair, around a host that \<open>_check_bracketed_host\<close> accepts
  (the text after the first \<open>[\<close>, up to the first \<open>]\<close> in it); if not, \<open>urlsplit\<close> raises
  \<open>ValueError\<close>, with a message that \<open>Story.domain\<close> drops. The last check of
  \<open>urlsplit\<close>, on the normal form NFKC of the network location, never raises when all
  code points are below 256, as they are here.
\<close>

definition urlparse_netloc :: "string \<Rightarrow> error + string" where
  "urlparse_netloc u =
     (let rest = split_scheme (url_cleaned u)
      in if take 2 rest = ''//''
         then
           let n = takeWhile (\<lambda>c. c \<notin> set ''/?#'') (drop 2 rest)
           in if (CHR ''['' \<in> set n \<and> CHR '']'' \<notin> set n)
                 \<or> (CHR '']'' \<in> set n \<and> CHR ''['' \<notin> set n)
              then Inl (ValueError ''Invalid IPv6 URL'')
              else if CHR ''['' \<in> set n \<and> CHR '']'' \<in> set n
                      \<and> \<not> check_bracketed_host
                            (takeWhile (\<lambda>c. c \<noteq> CHR '']'')
                               (drop 1 (dropWhile (\<lambda>c. c \<noteq> CHR ''['') n)))
              then Inl (ValueError ''Invalid bracketed host'')
              else Inr n
         else Inr [])"

text \<open>
  The property \<open>Story.domain\<close>: \<open>None\<close> for a missing url, the network location of the
  url otherwise, and the empty string when \<open>urlparse\<close> raises.
\<close>

definition domain :: "story \<Rightarrow> string option" where
  "domain s =
     (if py_not (url s) then None
      else (case urlparse_netloc (py_format (url s)) of
              Inl e \<Rightarrow> Some []
            | Inr n \<Rightarrow> Some n))"

text \<open>The default of \<open>ScraperConfig.base_url\<close> (config/settings.py).\<close>

definition default_base_url :: string where
  "default_base_url = ''https://news.ycombinator.com/''"

section \<open>Listing rows and functions of the Python library\<close>

text \<open>
  What the parser reads of the markup of a page, element by element. The title anchor of
  a listing row: its text and its \<open>href\<close> attribute.
\<close>

record anchor =
  a_text :: string
  href :: "string option"

text \<open>
  The metadata block \<open>.subtext\<close> of a listing row: the text of its \<open>.score\<close> and
  \<open>.hnuser\<close> elements when present, the \<open>title\<close> attribute of its \<open>.age\<close> element
  (\<open>None\<close>: no such element; \<open>Some None\<close>: the element has no such attribute), and the
  texts of its links in document order.
\<close>

record subtext =
  score_text :: "string option"
  hnuser_text :: "string option"
  age_title :: "string option option"
  link_texts :: "string list"

text \<open>
  A listing row \<open>tr.athing\<close>: its title anchor \<open>.titleline > a\<close> when present, its
  \<open>id\<close> attribute, and the next sibling row (\<open>None\<close>: there is none; \<open>Some None\<close>: it
  has no \<open>.subtext\<close> block).
\<close>

record item =
  title_anchor :: "anchor option"
  id_attr :: "string option"
  next_tr :: "subtext option option"

text \<open>
  The library functions whose results the code passes on without the repository defining
  them: \<open>datetime.isoformat\<close>, \<open>datetime.fromisoformat\<close> and \<open>int\<close> (\<open>None\<close> where
  they raise \<open>ValueError\<close>), \<open>datetime.now\<close> as a function of the clock,
  \<open>urllib.parse.urljoin\<close>, and the listing rows that \<open>BeautifulSoup(text,
  'html.parser').select('tr.athing')\<close> finds in a page body.
\<close>

record pylib =
  isoformat :: "datetime \<Rightarrow> string"
  fromisoformat :: "string \<Rightarrow> datetime option"
  py_int :: "string \<Rightarrow> int option"
  datetime_now :: "real \<Rightarrow> datetime"
  urljoin :: "string \<Rightarrow> string \<Rightarrow> string"
  select_athing :: "string \<Rightarrow> item list"

text \<open>
  Strings are sequences of code points below 256. \<open>str.isspace\<close> on them; \<open>s.strip()\<close>;
  \<open>s.split()[0]\<close>, the first whitespace-separated word (\<open>None\<close> where the index raises
  \<open>IndexError\<close>); \<open>s.lower()\<close>; and the test \<open>needle in s\<close>.
\<close>

definition py_isspace :: "char \<Rightarrow> bool" where
  "py_isspace c = ((of_char c :: nat) \<in> {9, 10, 11, 12, 13, 28, 29, 30, 31, 32, 133, 160})"

definition py_strip :: "string \<Rightarrow> string" where
  "py_strip s = rev (dropWhile py_isspace (rev (dropWhile py_isspace s)))"

definition py_split_first :: "string \<Rightarrow> string option" where
  "py_split_first s =
     (let t = dropWhile py_isspace s
      in if t = [] then None else Some (takeWhile (\<lambda>c. \<not> py_isspace c) t))"

definition py_lower_char :: "char \<Rightarrow> char" where
  "py_lower_char c =
     (let n = (of_char c :: nat)
      in if (65 \<le> n \<and> n \<le> 90) \<or> (192 \<le> n \<and> n \<le> 222 \<and> n \<noteq> 215)
         then char_of (n + 32) else c)"

definition py_lower :: "string \<Rightarrow> string" where
  "py_lower s = map py_lower_char s"

fun py_in :: "string \<Rightarrow> string \<Rightarrow> bool" where
  "py_in needle [] = (needle = [])"
| "py_in needle (c # cs) = (take (length needle) (c # cs) = needle \<or> py_in needle cs)"

text \<open>\<open>str(n)\<close> for an integer, in decimal.\<close>

fun str_nat :: "nat \<Rightarrow> string" where
  "str_nat n =
     (if n < 10 then [''0123456789'' ! n]
      else str_nat (n div 10) @ [''0123456789'' ! (n mod 10)])"

definition str_int :: "int \<Rightarrow> string" where
  "str_int i = (if i < 0 then CHR ''-'' # str_nat (nat (- i)) else str_nat (nat i))"


section \<open>Serialization and storage (models/story.py, core/storage.py)\<close>












section \<open>Parsing a listing page (core/scraper.py, core/async\_scraper.py)\<close>

text \<open>
  \<open>int(text.split()[0])\<close>: \<open>IndexError\<close> when the text has no word, \<open>ValueError\<close> when
  the word is not a number.
\<close>

definition leading_int :: "pylib \<Rightarrow> string \<Rightarrow> error + int" where
  "leading_int lib t =
     (case py_split_first t of
        None \<Rightarrow> Inl (IndexError ''list index out of range'')
      | Some w \<Rightarrow>
          (case py_int lib w of
             None \<Rightarrow> Inl (ValueError (''invalid literal for int() with base 10: '' @ w))
           | Some n \<Rightarrow> Inr n))"

text \<open>
  The timestamp block of \<open>_parse_item\<close>: \<open>now\<close> unless the \<open>.age\<close> element has a
  non-empty \<open>title\<close> whose first word \<open>fromisoformat\<close> accepts; the inner handler catches
  \<open>ValueError\<close> and \<open>IndexError\<close>.
\<close>

definition parse_post_time :: "pylib \<Rightarrow> datetime \<Rightarrow> string option option \<Rightarrow> datetime" where
  "parse_post_time lib now age =
     (case age of
        None \<Rightarrow> now
      | Some attr \<Rightarrow>
          (let time_str = (case attr of None \<Rightarrow> [] | Some t \<Rightarrow> t)
           in if time_str = [] then now
              else (case py_split_first time_str of
                      None \<Rightarrow> now
                    | Some iso_time \<Rightarrow>
                        (case fromisoformat lib iso_time of
                           None \<Rightarrow> now
                         | Some dt \<Rightarrow> dt))))"

text \<open>
  The comment count: the first link whose lower-cased text contains \<open>comment\<close>; the
  inner handler turns \<open>ValueError\<close> and \<open>IndexError\<close> into the default 0.
\<close>

definition parse_comment_count :: "pylib \<Rightarrow> string list \<Rightarrow> int" where
  "parse_comment_count lib links =
     (case find (\<lambda>t. py_in ''comment'' (py_lower t)) links of
        None \<Rightarrow> 0
      | Some t \<Rightarrow> (case leading_int lib t of Inl e \<Rightarrow> 0 | Inr n \<Rightarrow> n))"

text \<open>
  The body of the \<open>try\<close> block of \<open>_parse_item\<close> (the same text in both scrapers):
  \<open>Inr None\<close> where it returns \<open>None\<close>, \<open>Inl e\<close> where a statement raises \<open>e\<close>. The
  construction of the Story at the end runs \<open>__post_init__\<close>.
\<close>

definition parse_item_body :: "pylib \<Rightarrow> datetime \<Rightarrow> item \<Rightarrow> error + story option" where
  "parse_item_body lib now it =
     (case title_anchor it of
        None \<Rightarrow> Inr None
      | Some title_elem \<Rightarrow>
          (case next_tr it of
             None \<Rightarrow> Inl (AttributeError ''NoneType object has no attribute select_one'')
           | Some None \<Rightarrow> Inr None
           | Some (Some st) \<Rightarrow>
               (case (case score_text st of None \<Rightarrow> Inr 0 | Some t \<Rightarrow> leading_int lib t) of
                  Inl e \<Rightarrow> Inl e
                | Inr pts \<Rightarrow>
                    (case post_init
                            \<lparr>title = py_strip (a_text title_elem),
                             url = href title_elem,
                             points = pts,
                             username = (case hnuser_text st of None \<Rightarrow> ''unknown'' | Some u \<Rightarrow> u),
                             comment_count = parse_comment_count lib (link_texts st),
                             story_id = id_attr it,
                             time = DateTime (parse_post_time lib now (age_title st))\<rparr> of
                       Inl e \<Rightarrow> Inl e
                     | Inr s \<Rightarrow> Inr (Some s)))))"

text \<open>\<open>_parse_item\<close>: the handler around the body logs the exception and returns \<open>None\<close>.\<close>

definition parse_item :: "pylib \<Rightarrow> datetime \<Rightarrow> item \<Rightarrow> error + story option" where
  "parse_item lib now it =
     (case parse_item_body lib now it of
        Inl e \<Rightarrow> Inr None
      | Inr r \<Rightarrow> Inr r)"

text \<open>
  The loop of \<open>scrape_page\<close> over the rows of a page: a Story is appended, a \<open>None\<close> is
  logged, and an exception of \<open>_parse_item\<close> is logged and the loop continues.
\<close>

fun parse_items :: "pylib \<Rightarrow> datetime \<Rightarrow> item list \<Rightarrow> story list \<Rightarrow> error + story list" where
  "parse_items lib now [] stories = Inr stories"
| "parse_items lib now (it # items) stories =
     (case parse_item lib now it of
        Inl e \<Rightarrow> parse_items lib now items stories
      | Inr None \<Rightarrow> parse_items lib now items stories
      | Inr (Some s) \<Rightarrow> parse_items lib now items (stories @ [s]))"

text \<open>
  The Story a row yields, if any; whether it yields one; and the number of rows of a page
  that yield none.
\<close>

definition story_of :: "pylib \<Rightarrow> datetime \<Rightarrow> item \<Rightarrow> story option" where
  "story_of lib now it =
     (case parse_item lib now it of Inr (Some s) \<Rightarrow> Some s | Inr None \<Rightarrow> None | Inl e \<Rightarrow> None)"

definition yields_story :: "pylib \<Rightarrow> datetime \<Rightarrow> item \<Rightarrow> bool" where
  "yields_story lib now it = (story_of lib now it \<noteq> None)"

definition failed_count :: "pylib \<Rightarrow> datetime \<Rightarrow> item list \<Rightarrow> nat" where
  "failed_count lib now items = length (filter (\<lambda>it. \<not> yields_story lib now it) items)"

section \<open>The clock and the network\<close>

text \<open>
  The world the scrapers act on. \<open>clock\<close> is what \<open>time.time()\<close> reads. Every sleep and
  every HTTP request is an event: the \<open>k\<close>-th event lasts \<open>jitter k\<close> longer than the
  time asked for. \<open>net k u\<close> is what the \<open>k\<close>-th request of the run of the program
  meets when it asks for \<open>u\<close>: an exception of the transport, or a response.
  \<open>trace\<close> lists the requests issued so far, latest first, each with the time it
  started at.
\<close>

record response =
  status_code :: nat
  resp_text :: string

record world =
  clock :: real
  events :: nat
  jitter :: "nat \<Rightarrow> real"
  net :: "nat \<Rightarrow> string \<Rightarrow> error + response"
  trace :: "(real \<times> string) list"

definition elapse :: "real \<Rightarrow> world \<Rightarrow> world" where
  "elapse d w = w\<lparr>clock := clock w + d + jitter w (events w), events := Suc (events w)\<rparr>"

text \<open>\<open>time.sleep(d)\<close> raises \<open>ValueError\<close> for a negative length.\<close>

definition time_sleep :: "real \<Rightarrow> world \<Rightarrow> error + world" where
  "time_sleep d w =
     (if d < 0 then Inl (ValueError ''sleep length must be non-negative'')
      else Inr (elapse d w))"

text \<open>\<open>await asyncio.sleep(d)\<close> returns at once for a length that is not positive.\<close>

definition asyncio_sleep :: "real \<Rightarrow> world \<Rightarrow> world" where
  "asyncio_sleep d w = (if d \<le> 0 then w else elapse d w)"

text \<open>\<open>session.get(u)\<close>: the request starts now, is recorded, and takes its time.\<close>

definition http_get :: "string \<Rightarrow> world \<Rightarrow> (error + response) \<times> world" where
  "http_get u w =
     (net w (length (trace w)) u, elapse 0 (w\<lparr>trace := (clock w, u) # trace w\<rparr>))"

text \<open>
  \<open>response.raise_for_status()\<close> of \<open>requests\<close>, which the sequential scraper calls: an
  \<open>HTTPError\<close>, a \<open>RequestException\<close>, for a status from 400 to 599.
\<close>

definition raise_for_status :: "response \<Rightarrow> error + response" where
  "raise_for_status r =
     (if 400 \<le> status_code r \<and> status_code r < 600
      then Inl (RequestException (''HTTP error status '' @ str_nat (status_code r)))
      else Inr r)"

text \<open>
  \<open>response.raise_for_status()\<close> of \<open>aiohttp\<close>, which the concurrent scraper calls: a
  \<open>ClientResponseError\<close>, which is no \<open>RequestException\<close>, for every status from 400
  upwards.
\<close>

definition async_raise_for_status :: "response \<Rightarrow> error + response" where
  "async_raise_for_status r =
     (if 400 \<le> status_code r
      then Inl (OtherException (''HTTP error status '' @ str_nat (status_code r)))
      else Inr r)"

section \<open>Configuration (config/settings.py)\<close>

record config =
  base_url :: string
  rate_limit :: real
  timeout :: int
  max_retries :: int
  user_agents :: "string list"

definition default_config :: config where
  "default_config =
     \<lparr>base_url = default_base_url, rate_limit = 1, timeout = 30, max_retries = 3,
      user_agents =
        [''Mozilla/5.0 (Windows NT 10.0; Win64; x64) AppleWebKit/537.36 (KHTML, like Gecko) Chrome/91.0.4472.124 Safari/537.36'',
         ''Mozilla/5.0 (Macintosh; Intel Mac OS X 10_15_7) AppleWebKit/537.36 (KHTML, like Gecko) Chrome/91.0.4472.124 Safari/537.36'',
         ''Mozilla/5.0 (Windows NT 10.0; Win64; x64; rv:89.0) Gecko/20100101 Firefox/89.0'']\<rparr>"

text \<open>
  \<open>random.choice(self.config.user_agents)\<close> raises \<open>IndexError\<close> on an empty pool. The
  header it fills has no part in what the network answers here.
\<close>

definition choose_user_agent :: "config \<Rightarrow> error + unit" where
  "choose_user_agent cfg =
     (if user_agents cfg = [] then Inl (IndexError ''Cannot choose from an empty sequence'')
      else Inr ())"

text \<open>The url of a listing page: \<open>f"{self.config.base_url}news?p={page_num}"\<close>.\<close>

definition page_url :: "config \<Rightarrow> int \<Rightarrow> string" where
  "page_url cfg page_num = base_url cfg @ ''news?p='' @ str_int page_num"

section \<open>The sequential scraper (core/scraper.py)\<close>

text \<open>
  The attributes both scrapers have, and those of a \<open>HackerNewsScraper\<close>.
  \<open>robot_parser\<close> is the text the exclusion parser has parsed, \<open>None\<close> while it has
  parsed nothing (the empty policy, which allows everything); \<open>scrape_thread\<close> says
  whether a thread object is stored.
\<close>

record scraper_base =
  config :: config
  last_request_time :: real
  robot_parser :: "string option"
  scraping :: bool
  stop_flag :: bool

record scraper = scraper_base +
  scrape_thread :: bool

text \<open>\<open>_load_robots_txt\<close>: one request on the session, with no check of the status.\<close>

definition load_robots_txt :: "pylib \<Rightarrow> world \<Rightarrow> scraper \<Rightarrow> (error + unit) \<times> world \<times> scraper" where
  "load_robots_txt lib w s =
     (let robots_url = urljoin lib (base_url (config s)) ''robots.txt''
      in case http_get robots_url w of
           (Inl e, w1) \<Rightarrow>
             (Inl (RobotsTxtError (''Failed to load robots.txt: '' @ str_error e)), w1, s)
         | (Inr r, w1) \<Rightarrow> (Inr (), w1, s\<lparr>robot_parser := Some (resp_text r)\<rparr>))"

text \<open>
  \<open>__init__\<close>: the attributes, then \<open>_load_robots_txt\<close>, then \<open>_rotate_user_agent\<close>. An
  exception in either leaves no scraper.
\<close>

definition init :: "pylib \<Rightarrow> config \<Rightarrow> world \<Rightarrow> (error + scraper) \<times> world" where
  "init lib cfg w =
     (let s = \<lparr>config = cfg, last_request_time = 0, robot_parser = None, scraping = False,
                stop_flag = False, scrape_thread = False\<rparr>
      in case load_robots_txt lib w s of
           (Inl e, w1, s1) \<Rightarrow> (Inl e, w1)
         | (Inr u, w1, s1) \<Rightarrow>
             (case choose_user_agent (config s1) of
                Inl e \<Rightarrow> (Inl e, w1)
              | Inr u \<Rightarrow> (Inr s1, w1)))"

text \<open>\<open>_respect_rate_limit\<close>.\<close>

definition respect_rate_limit :: "world \<Rightarrow> scraper \<Rightarrow> (error + unit) \<times> world \<times> scraper" where
  "respect_rate_limit w s =
     (let current_time = clock w;
          time_since_last = current_time - last_request_time s
      in case (if time_since_last < rate_limit (config s)
               then time_sleep (rate_limit (config s) - time_since_last) w
               else Inr w) of
           Inl e \<Rightarrow> (Inl e, w, s)
         | Inr w1 \<Rightarrow> (Inr (), w1, s\<lparr>last_request_time := clock w1\<rparr>))"

text \<open>
  One attempt of \<open>_make_request\<close>, the body of its \<open>try\<close>: the rate limit, the request
  and the check of the status.
\<close>

definition attempt_request :: "string \<Rightarrow> world \<Rightarrow> scraper \<Rightarrow> (error + response) \<times> world \<times> scraper" where
  "attempt_request u w s =
     (case respect_rate_limit w s of
        (Inl e, w1, s1) \<Rightarrow> (Inl e, w1, s1)
      | (Inr x, w1, s1) \<Rightarrow>
          (case http_get u w1 of
             (Inl e, w2) \<Rightarrow> (Inl e, w2, s1)
           | (Inr r, w2) \<Rightarrow>
               (case raise_for_status r of
                  Inl e \<Rightarrow> (Inl e, w2, s1)
                | Inr r' \<Rightarrow> (Inr r', w2, s1))))"

text \<open>
  \<open>_make_request\<close>: the loop over the attempts still to make. The handler catches a
  \<open>RequestException\<close> only, any other exception leaves the function as it is; after the
  last attempt the handler raises \<open>ScrapingError\<close>, before that it sleeps and the loop
  goes on; with no attempt at all the function returns \<open>None\<close>.
\<close>

fun make_request_from :: "string \<Rightarrow> nat list \<Rightarrow> world \<Rightarrow> scraper \<Rightarrow> (error + response option) \<times> world \<times> scraper" where
  "make_request_from u [] w s = (Inr None, w, s)"
| "make_request_from u (attempt # rest) w s =
     (case attempt_request u w s of
        (Inr r, w1, s1) \<Rightarrow> (Inr (Some r), w1, s1)
      | (Inl e, w1, s1) \<Rightarrow>
          (if is_request_exception e
           then (if int attempt = max_retries (config s1) - 1
                 then (Inl (ScrapingError (''Failed to fetch '' @ u @ '': '' @ str_error e)), w1, s1)
                 else (case time_sleep (2 ^ attempt) w1 of
                         Inl e' \<Rightarrow> (Inl e', w1, s1)
                       | Inr w2 \<Rightarrow> make_request_from u rest w2 s1))
           else (Inl e, w1, s1)))"

definition make_request :: "string \<Rightarrow> world \<Rightarrow> scraper \<Rightarrow> (error + response option) \<times> world \<times> scraper" where
  "make_request u w s = make_request_from u [0 ..< nat (max_retries (config s))] w s"

text \<open>
  \<open>scrape_page\<close>: every exception of the request or of the parsing (reading \<open>.text\<close> of
  \<open>None\<close> among them) is wrapped in a \<open>ScrapingError\<close>.
\<close>

definition scrape_page_body :: "pylib \<Rightarrow> int \<Rightarrow> world \<Rightarrow> scraper \<Rightarrow> (error + story list) \<times> world \<times> scraper" where
  "scrape_page_body lib page_num w s =
     (case make_request (page_url (config s) page_num) w s of
        (Inl e, w1, s1) \<Rightarrow> (Inl e, w1, s1)
      | (Inr None, w1, s1) \<Rightarrow>
          (Inl (AttributeError ''NoneType object has no attribute text''), w1, s1)
      | (Inr (Some r), w1, s1) \<Rightarrow>
          (parse_items lib (datetime_now lib (clock w1)) (select_athing lib (resp_text r)) [], w1, s1))"

definition scrape_page :: "pylib \<Rightarrow> int \<Rightarrow> world \<Rightarrow> scraper \<Rightarrow> (error + story list) \<times> world \<times> scraper" where
  "scrape_page lib page_num w s =
     (case scrape_page_body lib page_num w s of
        (Inl e, w1, s1) \<Rightarrow>
          (Inl (ScrapingError (''Failed to scrape page '' @ str_int page_num @ '': '' @ str_error e)), w1, s1)
      | (Inr stories, w1, s1) \<Rightarrow> (Inr stories, w1, s1))"

text \<open>
  The loop of \<open>scrape_stories\<close> over the pages still to visit, with the list collected so
  far; no progress callback is passed. The stop flag ends the loop at the top of an
  iteration; after every page but the last the loop sleeps for the rate limit.
\<close>

fun scrape_loop :: "pylib \<Rightarrow> int \<Rightarrow> int list \<Rightarrow> story list \<Rightarrow> world \<Rightarrow> scraper \<Rightarrow> (error + story list) \<times> world \<times> scraper" where
  "scrape_loop lib num_pages [] stories w s = (Inr stories, w, s)"
| "scrape_loop lib num_pages (page # pages) stories w s =
     (if stop_flag s then (Inr stories, w, s)
      else (case scrape_page lib page w s of
              (Inl e, w1, s1) \<Rightarrow> (Inl e, w1, s1)
            | (Inr page_stories, w1, s1) \<Rightarrow>
                (if page < num_pages
                 then (case time_sleep (rate_limit (config s1)) w1 of
                         Inl e \<Rightarrow> (Inl e, w1, s1)
                       | Inr w2 \<Rightarrow> scrape_loop lib num_pages pages (stories @ page_stories) w2 s1)
                 else scrape_loop lib num_pages pages (stories @ page_stories) w1 s1)))"

text \<open>
  \<open>scrape_stories\<close>: the pages are \<open>range(1, num_pages + 1)\<close>; every exception of the
  loop is wrapped in a \<open>ScrapingError\<close>, and the list collected so far is dropped with it.
\<close>

definition scrape_stories :: "pylib \<Rightarrow> int \<Rightarrow> world \<Rightarrow> scraper \<Rightarrow> (error + story list) \<times> world \<times> scraper" where
  "scrape_stories lib num_pages w s =
     (case scrape_loop lib num_pages [1 .. num_pages] [] w s of
        (Inl e, w1, s1) \<Rightarrow>
          (Inl (ScrapingError (''Failed to scrape stories: '' @ str_error e)), w1, s1)
      | (Inr stories, w1, s1) \<Rightarrow> (Inr stories, w1, s1))"

text \<open>
  \<open>start_scraping\<close> (with no callback): the thread it starts calls \<open>scrape_stories\<close> and
  clears \<open>_scraping\<close> at its end; an exception of the thread does not reach the caller.
  The thread is run to its end here, one call at a time.
\<close>

definition start_scraping :: "pylib \<Rightarrow> int \<Rightarrow> world \<Rightarrow> scraper \<Rightarrow> (error + unit) \<times> world \<times> scraper" where
  "start_scraping lib num_pages w s =
     (if scraping s then (Inl (ScrapingError ''Scraping is already in progress''), w, s)
      else (case scrape_stories lib num_pages w (s\<lparr>scraping := True\<rparr>) of
              (r, w1, s1) \<Rightarrow> (Inr (), w1, s1\<lparr>scraping := False, scrape_thread := True\<rparr>)))"

text \<open>\<open>stop_scraping\<close>: the thread, if any, has ended when \<open>join\<close> returns.\<close>

definition stop_scraping :: "world \<Rightarrow> scraper \<Rightarrow> (error + unit) \<times> world \<times> scraper" where
  "stop_scraping w s = (Inr (), w, s\<lparr>scraping := False, stop_flag := True\<rparr>)"

section \<open>The concurrent scraper (core/async\_scraper.py)\<close>

text \<open>
  The session attribute of an \<open>AsyncHackerNewsScraper\<close>: \<open>None\<close> until the first run,
  the session of the run during it, and that session, closed, afterwards.
\<close>

datatype session = NoSession | OpenSession | ClosedSession

record async_scraper = scraper_base +
  session :: session

text \<open>
  The body of the coroutine function \<open>_load_robots_txt\<close>, with the warnings it logs: what
  would run if the coroutine were awaited.
\<close>

definition async_load_robots_txt :: "pylib \<Rightarrow> world \<Rightarrow> async_scraper \<Rightarrow> (world \<times> async_scraper) \<times> string list" where
  "async_load_robots_txt lib w s =
     (let robots_url = urljoin lib (base_url (config s)) ''robots.txt''
      in case http_get robots_url w of
           (Inl e, w1) \<Rightarrow> ((w1, s), [''Failed to load robots.txt: '' @ str_error e])
         | (Inr r, w1) \<Rightarrow> ((w1, s\<lparr>robot_parser := Some (resp_text r)\<rparr>), []))"

text \<open>
  \<open>__init__\<close>: the attributes, then the call \<open>self._load_robots_txt()\<close>. The call of a
  coroutine function makes a coroutine object and runs nothing of its body; \<open>__init__\<close>
  does not await the object, so the constructor returns the attributes as they are, the
  warnings it logged with them (none), and the world untouched.
\<close>

definition async_init :: "pylib \<Rightarrow> config \<Rightarrow> world \<Rightarrow> ((error + async_scraper) \<times> world) \<times> string list" where
  "async_init lib cfg w =
     ((Inr \<lparr>config = cfg, last_request_time = 0, robot_parser = None, scraping = True,
            stop_flag = False, session = NoSession\<rparr>, w), [])"

text \<open>\<open>_respect_rate_limit\<close>.\<close>

definition async_respect_rate_limit :: "world \<Rightarrow> async_scraper \<Rightarrow> world \<times> async_scraper" where
  "async_respect_rate_limit w s =
     (let current_time = clock w;
          time_since_last = current_time - last_request_time s;
          w1 = (if time_since_last < rate_limit (config s)
                then asyncio_sleep (rate_limit (config s) - time_since_last) w
                else w)
      in (w1, s\<lparr>last_request_time := clock w1\<rparr>))"

text \<open>
  \<open>self.session.get(u)\<close>: without a session the attribute access raises, on a closed
  session the request raises, and on the open one the request is made.
\<close>

definition session_get :: "string \<Rightarrow> world \<Rightarrow> async_scraper \<Rightarrow> (error + response) \<times> world" where
  "session_get u w s =
     (case session s of
        NoSession \<Rightarrow> (Inl (AttributeError ''NoneType object has no attribute get''), w)
      | ClosedSession \<Rightarrow> (Inl (OtherException ''Session is closed''), w)
      | OpenSession \<Rightarrow> http_get u w)"

text \<open>
  One attempt of \<open>_make_request\<close>, the body of its \<open>try\<close>: the rate limit, the choice
  of the user agent, the request and the check of the status.
\<close>

definition async_attempt :: "string \<Rightarrow> world \<Rightarrow> async_scraper \<Rightarrow> (error + string) \<times> world \<times> async_scraper" where
  "async_attempt u w s =
     (case async_respect_rate_limit w s of
        (w1, s1) \<Rightarrow>
          (case choose_user_agent (config s1) of
             Inl e \<Rightarrow> (Inl e, w1, s1)
           | Inr x \<Rightarrow>
               (case session_get u w1 s1 of
                  (Inl e, w2) \<Rightarrow> (Inl e, w2, s1)
                | (Inr r, w2) \<Rightarrow>
                    (case async_raise_for_status r of
                       Inl e \<Rightarrow> (Inl e, w2, s1)
                     | Inr r' \<Rightarrow> (Inr (resp_text r'), w2, s1)))))"

text \<open>
  \<open>_make_request\<close>: the handler catches every exception; after the last attempt it
  raises \<open>ScraperError\<close>, before that it sleeps and the loop goes on.
\<close>

fun async_make_request_from :: "string \<Rightarrow> nat list \<Rightarrow> world \<Rightarrow> async_scraper \<Rightarrow> (error + string option) \<times> world \<times> async_scraper" where
  "async_make_request_from u [] w s = (Inr None, w, s)"
| "async_make_request_from u (attempt # rest) w s =
     (case async_attempt u w s of
        (Inr html, w1, s1) \<Rightarrow> (Inr (Some html), w1, s1)
      | (Inl e, w1, s1) \<Rightarrow>
          (if int attempt = max_retries (config s1) - 1
           then (Inl (ScraperError (''Failed to fetch '' @ u @ '': '' @ str_error e)), w1, s1)
           else async_make_request_from u rest (asyncio_sleep (2 ^ attempt) w1) s1))"

definition async_make_request :: "string \<Rightarrow> world \<Rightarrow> async_scraper \<Rightarrow> (error + string option) \<times> world \<times> async_scraper" where
  "async_make_request u w s =
     async_make_request_from u [0 ..< nat (max_retries (config s))] w s"

text \<open>
  \<open>scrape_page\<close>: the body of the \<open>try\<close> (\<open>BeautifulSoup\<close> raises on \<open>None\<close>), and the
  handler, which logs the exception and returns the empty list.
\<close>

definition async_scrape_page_body :: "pylib \<Rightarrow> int \<Rightarrow> world \<Rightarrow> async_scraper \<Rightarrow> (error + story list) \<times> world \<times> async_scraper" where
  "async_scrape_page_body lib page_num w s =
     (case async_make_request (page_url (config s) page_num) w s of
        (Inl e, w1, s1) \<Rightarrow> (Inl e, w1, s1)
      | (Inr None, w1, s1) \<Rightarrow>
          (Inl (TypeError ''object of type NoneType has no len()''), w1, s1)
      | (Inr (Some html), w1, s1) \<Rightarrow>
          (parse_items lib (datetime_now lib (clock w1)) (select_athing lib html) [], w1, s1))"

definition async_scrape_page :: "pylib \<Rightarrow> int \<Rightarrow> world \<Rightarrow> async_scraper \<Rightarrow> (error + story list) \<times> world \<times> async_scraper" where
  "async_scrape_page lib page_num w s =
     (case async_scrape_page_body lib page_num w s of
        (Inl e, w1, s1) \<Rightarrow> (Inr [], w1, s1)
      | (Inr stories, w1, s1) \<Rightarrow> (Inr stories, w1, s1))"

text \<open>The loop of \<open>scrape_stories\<close>, as in the sequential scraper, with \<open>asyncio.sleep\<close>.\<close>

fun async_scrape_loop :: "pylib \<Rightarrow> int \<Rightarrow> int list \<Rightarrow> story list \<Rightarrow> world \<Rightarrow> async_scraper \<Rightarrow> (error + story list) \<times> world \<times> async_scraper" where
  "async_scrape_loop lib num_pages [] stories w s = (Inr stories, w, s)"
| "async_scrape_loop lib num_pages (page # pages) stories w s =
     (if stop_flag s then (Inr stories, w, s)
      else (case async_scrape_page lib page w s of
              (Inl e, w1, s1) \<Rightarrow> (Inl e, w1, s1)
            | (Inr page_stories, w1, s1) \<Rightarrow>
                (if page < num_pages
                 then async_scrape_loop lib num_pages pages (stories @ page_stories)
                        (asyncio_sleep (rate_limit (config s1)) w1) s1
                 else async_scrape_loop lib num_pages pages (stories @ page_stories) w1 s1)))"

text \<open>
  \<open>scrape_stories\<close>: the session is opened for the run and closed when the \<open>with\<close> block
  is left, by a return or by an exception; an exception is wrapped in a \<open>ScraperError\<close>.
\<close>

definition async_scrape_stories :: "pylib \<Rightarrow> int \<Rightarrow> world \<Rightarrow> async_scraper \<Rightarrow> (error + story list) \<times> world \<times> async_scraper" where
  "async_scrape_stories lib num_pages w s =
     (case async_scrape_loop lib num_pages [1 .. num_pages] [] w (s\<lparr>session := OpenSession\<rparr>) of
        (Inl e, w1, s1) \<Rightarrow>
          (Inl (ScraperError (''Failed to scrape stories: '' @ str_error e)), w1,
           s1\<lparr>session := ClosedSession\<rparr>)
      | (Inr stories, w1, s1) \<Rightarrow> (Inr stories, w1, s1\<lparr>session := ClosedSession\<rparr>))"

text \<open>
  \<open>start_scraping\<close> (with no callback): \<open>scrape_stories\<close> is awaited, \<open>_scraping\<close> is
  cleared in the \<open>finally\<close> block, and an exception goes on to the caller.
\<close>

definition async_start_scraping :: "pylib \<Rightarrow> int \<Rightarrow> world \<Rightarrow> async_scraper \<Rightarrow> (error + unit) \<times> world \<times> async_scraper" where
  "async_start_scraping lib num_pages w s =
     (if scraping s then (Inl (ScraperError ''Scraping is already in progress''), w, s)
      else (case async_scrape_stories lib num_pages w (s\<lparr>scraping := True\<rparr>) of
              (Inl e, w1, s1) \<Rightarrow> (Inl e, w1, s1\<lparr>scraping := False\<rparr>)
            | (Inr stories, w1, s1) \<Rightarrow> (Inr (), w1, s1\<lparr>scraping := False\<rparr>)))"

definition async_stop_scraping :: "world \<Rightarrow> async_scraper \<Rightarrow> (error + unit) \<times> world \<times> async_scraper" where
  "async_stop_scraping w s = (Inr (), w, s\<lparr>stop_flag := True, scraping := False\<rparr>)"

section \<open>Sequences of calls on one scraper\<close>

text \<open>
  The public methods of the interface \<open>IScraper\<close>, as calls a client makes one after
  the other on the same instance; what a call returns or raises is dropped, and the
  world and the instance go on to the next call.
\<close>

datatype call = ScrapePage int | ScrapeStories int | StartScraping int | StopScraping

fun exec_call :: "pylib \<Rightarrow> call \<Rightarrow> world \<times> scraper \<Rightarrow> world \<times> scraper" where
  "exec_call lib (ScrapePage p) (w, s) = snd (scrape_page lib p w s)"
| "exec_call lib (ScrapeStories n) (w, s) = snd (scrape_stories lib n w s)"
| "exec_call lib (StartScraping n) (w, s) = snd (start_scraping lib n w s)"
| "exec_call lib StopScraping (w, s) = snd (stop_scraping w s)"

definition exec_calls :: "pylib \<Rightarrow> call list \<Rightarrow> world \<times> scraper \<Rightarrow> world \<times> scraper" where
  "exec_calls lib calls ws = fold (exec_call lib) calls ws"

fun async_exec_call :: "pylib \<Rightarrow> call \<Rightarrow> world \<times> async_scraper \<Rightarrow> world \<times> async_scraper" where
  "async_exec_call lib (ScrapePage p) (w, s) = snd (async_scrape_page lib p w s)"
| "async_exec_call lib (ScrapeStories n) (w, s) = snd (async_scrape_stories lib n w s)"
| "async_exec_call lib (StartScraping n) (w, s) = snd (async_start_scraping lib n w s)"
| "async_exec_call lib StopScraping (w, s) = snd (async_stop_scraping w s)"

definition async_exec_calls :: "pylib \<Rightarrow> call list \<Rightarrow> world \<times> async_scraper \<Rightarrow> world \<times> async_scraper" where
  "async_exec_calls lib calls ws = fold (async_exec_call lib) calls ws"

section \<open>Request times\<close>

text \<open>
  A list of start times, latest first, in which every request starts at least \<open>d\<close>
  after the one before it; and the start times of the requests a run added to the trace.
\<close>

fun spaced :: "real \<Rightarrow> real list \<Rightarrow> bool" where
  "spaced d [] = True"
| "spaced d [t] = True"
| "spaced d (t2 # t1 # ts) = (t1 + d \<le> t2 \<and> spaced d (t1 # ts))"

definition requests_since :: "world \<Rightarrow> world \<Rightarrow> real list" where
  "requests_since w0 w = map fst (take (length (trace w) - length (trace w0)) (trace w))"

section \<open>An instance of the library and of the world, for the examples\<close>

text \<open>
  Decimal numbers: the value of a string of digits, and \<open>int\<close> on an optional minus
  sign followed by digits.
\<close>

definition digit_val :: "char \<Rightarrow> nat option" where
  "digit_val c =
     (if CHR ''0'' \<le> c \<and> c \<le> CHR ''9'' then Some (of_char c - 48) else None)"

fun digits_val :: "nat \<Rightarrow> string \<Rightarrow> nat option" where
  "digits_val acc [] = Some acc"
| "digits_val acc (c # cs) =
     (case digit_val c of None \<Rightarrow> None | Some d \<Rightarrow> digits_val (10 * acc + d) cs)"

definition example_int :: "string \<Rightarrow> int option" where
  "example_int w =
     (case w of
        [] \<Rightarrow> None
      | c # cs \<Rightarrow>
          (if c = CHR ''-''
           then (if cs = [] then None else map_option (\<lambda>n. - int n) (digits_val 0 cs))
           else map_option int (digits_val 0 w)))"

text \<open>
  \<open>isoformat\<close> of a naive \<open>datetime\<close>, \<open>YYYY-MM-DDTHH:MM:SS\<close> with \<open>.ffffff\<close> after it
  when the microseconds are not zero, and \<open>fromisoformat\<close> on texts of these two shapes.
\<close>

definition pad2 :: "nat \<Rightarrow> string" where
  "pad2 n = [''0123456789'' ! (n div 10 mod 10), ''0123456789'' ! (n mod 10)]"

definition example_isoformat :: "datetime \<Rightarrow> string" where
  "example_isoformat dt =
     pad2 (year dt div 100) @ pad2 (year dt) @ ''-'' @ pad2 (month dt) @ ''-'' @ pad2 (day dt)
       @ ''T'' @ pad2 (hour dt) @ '':'' @ pad2 (minute dt) @ '':'' @ pad2 (second dt)
       @ (if microsecond dt = 0 then []
          else ''.'' @ pad2 (microsecond dt div 10000) @ pad2 (microsecond dt div 100)
                 @ pad2 (microsecond dt))"

definition example_fromisoformat :: "string \<Rightarrow> datetime option" where
  "example_fromisoformat x =
     (if (length x = 19 \<or> (length x = 26 \<and> x ! 19 = CHR ''.''))
         \<and> x ! 4 = CHR ''-'' \<and> x ! 7 = CHR ''-'' \<and> x ! 10 = CHR ''T''
         \<and> x ! 13 = CHR '':'' \<and> x ! 16 = CHR '':''
      then (case (digits_val 0 (take 4 x), digits_val 0 (take 2 (drop 5 x)),
                  digits_val 0 (take 2 (drop 8 x)), digits_val 0 (take 2 (drop 11 x)),
                  digits_val 0 (take 2 (drop 14 x)), digits_val 0 (take 2 (drop 17 x)),
                  digits_val 0 (drop 20 x)) of
              (Some y, Some mo, Some d, Some h, Some mi, Some s, Some us) \<Rightarrow>
                Some \<lparr>year = y, month = mo, day = d, hour = h, minute = mi, second = s,
                      microsecond = us\<rparr>
            | _ \<Rightarrow> None)
      else None)"

text \<open>
  Listing rows: a well-formed row with a given id and title, and the same row without
  its title anchor. Three page bodies, by the rows the selector finds in them.
\<close>

definition row :: "string \<Rightarrow> string \<Rightarrow> item" where
  "row i t =
     \<lparr>title_anchor = Some \<lparr>a_text = t, href = Some (''https://example.com/'' @ i)\<rparr>,
      id_attr = Some i,
      next_tr = Some (Some \<lparr>score_text = Some ''100 points'',
                            hnuser_text = Some ''testuser'',
                            age_title = Some (Some ''2023-10-18T12:30:00 1697632200''),
                            link_texts = [''hide'', ''42 comments'']\<rparr>)\<rparr>"

definition row_without_title :: "string \<Rightarrow> item" where
  "row_without_title i = (row i [])\<lparr>title_anchor := None\<rparr>"

definition example_select :: "string \<Rightarrow> item list" where
  "example_select html =
     (if html = ''page one'' then [row ''101'' ''First story'', row ''102'' ''Second story'']
      else if html = ''page two'' then [row ''102'' ''Second story'', row ''103'' ''Third story'']
      else if html = ''page with a bad row''
           then [row ''201'' ''A'', row_without_title ''202'', row ''203'' ''B'', row ''204'' ''C'']
      else [])"

definition example_now :: datetime where
  "example_now = \<lparr>year = 2026, month = 11, day = 3, hour = 9, minute = 0, second = 0,
                   microsecond = 0\<rparr>"

definition example_lib :: pylib where
  "example_lib =
     \<lparr>isoformat = example_isoformat, fromisoformat = example_fromisoformat,
      py_int = example_int, datetime_now = (\<lambda>t. example_now),
      urljoin = (\<lambda>base u. base @ u), select_athing = example_select\<rparr>"

text \<open>
  Worlds in which the answer to a request depends on its url only, the clock stands at
  1000 and nothing takes longer than asked; and three such networks.
\<close>

definition example_world :: "(string \<Rightarrow> error + response) \<Rightarrow> world" where
  "example_world resp =
     \<lparr>clock = 1000, events = 0, jitter = (\<lambda>k. 0), net = (\<lambda>k. resp), trace = []\<rparr>"

definition both_pages_served :: "string \<Rightarrow> error + response" where
  "both_pages_served u =
     (if u = ''https://news.ycombinator.com/news?p=1''
      then Inr \<lparr>status_code = 200, resp_text = ''page one''\<rparr>
      else if u = ''https://news.ycombinator.com/news?p=2''
      then Inr \<lparr>status_code = 200, resp_text = ''page two''\<rparr>
      else if u = ''https://news.ycombinator.com/robots.txt''
      then Inr \<lparr>status_code = 200, resp_text = ''User-agent: * Disallow: /''\<rparr>
      else Inr \<lparr>status_code = 404, resp_text = []\<rparr>)"

definition second_page_fails :: "string \<Rightarrow> error + response" where
  "second_page_fails u =
     (if u = ''https://news.ycombinator.com/news?p=1''
      then Inr \<lparr>status_code = 200, resp_text = ''page one''\<rparr>
      else Inl (RequestException ''connection timed out''))"

definition nothing_served :: "string \<Rightarrow> error + response" where
  "nothing_served u = Inl (RequestException ''connection refused'')"

text \<open>
  What a network that answers by the url alone serves for a url: the body of the
  response, or nothing when the request raises or the status is an error, to the
  sequential scraper and to the concurrent one.
\<close>

definition served :: "(string \<Rightarrow> error + response) \<Rightarrow> string \<Rightarrow> string option" where
  "served resp u =
     (case resp u of
        Inl e \<Rightarrow> None
      | Inr r \<Rightarrow> (case raise_for_status r of Inl e \<Rightarrow> None | Inr r' \<Rightarrow> Some (resp_text r')))"

definition async_served :: "(string \<Rightarrow> error + response) \<Rightarrow> string \<Rightarrow> string option" where
  "async_served resp u =
     (case resp u of
        Inl e \<Rightarrow> None
      | Inr r \<Rightarrow>
          (case async_raise_for_status r of Inl e \<Rightarrow> None | Inr r' \<Rightarrow> Some (resp_text r')))"

text \<open>A scraper as a client configures it, before any call.\<close>

definition fresh_scraper :: "config \<Rightarrow> scraper" where
  "fresh_scraper cfg =
     \<lparr>config = cfg, last_request_time = 0, robot_parser = None, scraping = False,
      stop_flag = False, scrape_thread = False\<rparr>"

definition fresh_async_scraper :: "config \<Rightarrow> async_scraper" where
  "fresh_async_scraper cfg =
     \<lparr>config = cfg, last_request_time = 0, robot_parser = None, scraping = True,
      stop_flag = False, session = NoSession\<rparr>"

section \<open>Relations between states\<close>

text \<open>
  Two scrapers that differ at most in the time of the last request; a world and a later
  world of the same program: the same network, the same delays, and no request less in
  the trace; a world in which no event ends early; a world whose network answers by the
  url alone; the Story of the fixture of tests/test\_models.py.
\<close>

definition retimed :: "'a scraper_base_scheme \<Rightarrow> 'a scraper_base_scheme \<Rightarrow> bool" where
  "retimed s s' = (\<exists>t. s' = s\<lparr>last_request_time := t\<rparr>)"

definition same_net :: "world \<Rightarrow> world \<Rightarrow> bool" where
  "same_net w w' =
     (net w' = net w \<and> jitter w' = jitter w \<and> length (trace w) \<le> length (trace w'))"

definition steady :: "world \<Rightarrow> bool" where
  "steady w = (\<forall>k. 0 \<le> jitter w k)"

definition answers :: "world \<Rightarrow> (string \<Rightarrow> error + response) \<Rightarrow> bool" where
  "answers w resp = (\<forall>k. net w k = resp)"


text \<open>
  The Stories parsed from a page body at the moment \<open>now\<close>: one for every listing row
  that yields one, in the order of the rows, with none left out.
\<close>

definition body_stories :: "pylib \<Rightarrow> datetime \<Rightarrow> string \<Rightarrow> story list" where
  "body_stories lib now html = List.map_filter (story_of lib now) (select_athing lib html)"

text \<open>
  Between the worlds \<open>w\<close> and \<open>w'\<close> a request for \<open>u\<close> was made that the network
  answered with the response \<open>r\<close>, whose status the check (\<open>raise_for_status\<close> of the one
  library or the other) lets pass. And a list of Stories is what was parsed from a page at
  \<open>u\<close> between \<open>w\<close> and \<open>w'\<close>: the Stories of the body of such a response, parsed
  at some moment.
\<close>

definition answered :: "(response \<Rightarrow> error + response) \<Rightarrow> world \<Rightarrow> world \<Rightarrow> string \<Rightarrow> response \<Rightarrow> bool" where
  "answered check w w' u r =
     (\<exists>k. length (trace w) \<le> k \<and> k < length (trace w') \<and> net w k u = Inr r \<and> check r = Inr r)"

definition parsed_from_page :: "pylib \<Rightarrow> (response \<Rightarrow> error + response) \<Rightarrow> world \<Rightarrow> world \<Rightarrow> string \<Rightarrow> story list \<Rightarrow> bool" where
  "parsed_from_page lib check w w' u stories =
     (\<exists>r t. answered check w w' u r
        \<and> stories = body_stories lib (datetime_now lib t) (resp_text r))"

text \<open>
  The Stories a page contributes when the network answers by the url alone and the page
  is parsed at the moment \<open>now\<close>: those of the body served, none when the page is not
  served; for the sequential scraper and for the concurrent one.
\<close>

definition page_stories :: "pylib \<Rightarrow> (string \<Rightarrow> error + response) \<Rightarrow> config \<Rightarrow> int \<Rightarrow> datetime \<Rightarrow> story list" where
  "page_stories lib resp cfg p now =
     (case served resp (page_url cfg p) of
        None \<Rightarrow> []
      | Some html \<Rightarrow> body_stories lib now html)"

definition async_page_stories :: "pylib \<Rightarrow> (string \<Rightarrow> error + response) \<Rightarrow> config \<Rightarrow> int \<Rightarrow> datetime \<Rightarrow> story list" where
  "async_page_stories lib resp cfg p now =
     (case async_served resp (page_url cfg p) of
        None \<Rightarrow> []
      | Some html \<Rightarrow> body_stories lib now html)"

text \<open>The Story the library of the examples parses from \<open>row i t\<close>.\<close>

definition row_story :: "string \<Rightarrow> string \<Rightarrow> story" where
  "row_story i t =
     \<lparr>title = t, url = Some (''https://example.com/'' @ i), points = 100,
      username = ''testuser'', comment_count = 42, story_id = Some i,
      time = DateTime \<lparr>year = 2023, month = 10, day = 18, hour = 12, minute = 30,
                       second = 0, microsecond = 0\<rparr>\<rparr>"

text \<open>
  The invariant of a run on the request times: no event ends early, the trace is the
  trace \<open>tr0\<close> at the start of the run with the requests of the run before it, these are
  spaced by \<open>d\<close>, and the time noted for the last request is not before the start of the
  latest of them and not after the clock.
\<close>

definition paced :: "real \<Rightarrow> (real \<times> string) list \<Rightarrow> world \<Rightarrow> 'a scraper_base_scheme \<Rightarrow> bool" where
  "paced d tr0 w s =
     (steady w \<and>
      (\<exists>new. trace w = new @ tr0 \<and> spaced d (map fst new)
         \<and> (new \<noteq> [] \<longrightarrow> fst (hd new) \<le> last_request_time s \<and> last_request_time s \<le> clock w)))"

section \<open>Validation of a candidate\<close>

lemma post_init_cases:
  "post_init c =
     (if title c = [] then Inl (ValueError ''Story title cannot be empty'')
      else if py_not (story_id c) then Inl (ValueError ''Story ID cannot be empty'')
      else Inr (c\<lparr>url := (if py_not (url c)
                           then Some (''https://news.ycombinator.com/item?id='' @ py_format (story_id c))
                           else url c),
                  points := max 0 (points c),
                  username := (if username c = [] then ''unknown'' else username c),
                  comment_count := max 0 (comment_count c)\<rparr>))"
  by (simp add: post_init_def Let_def max_def)

lemma netloc_item:
  "urlparse_netloc (''https://news.ycombinator.com/item?id='' @ i) = Inr ''news.ycombinator.com''"
  by (simp add: urlparse_netloc_def url_cleaned_def split_scheme_def is_ascii_alpha_def
      is_scheme_char_def Let_def)

lemma netloc_default_base_url:
  "urlparse_netloc default_base_url = Inr ''news.ycombinator.com''"
  by (simp add: default_base_url_def urlparse_netloc_def url_cleaned_def split_scheme_def
      is_ascii_alpha_def is_scheme_char_def Let_def)

text \<open>
  Claim C5. A candidate whose title and id are non-empty is accepted by the validation
  that runs in the constructor, and the Record it yields has \<open>points \<ge> 0\<close> and
  \<open>comment_count \<ge> 0\<close>, whatever the sign of the candidate's counts: a negative
  count of the candidate has become 0 in the Record, and a count that is not negative
  is the candidate's.
\<close>

theorem validate_clamps_counts:
  assumes "title c \<noteq> []" and "\<not> py_not (story_id c)"
  shows "\<exists>r. post_init c = Inr r \<and> 0 \<le> points r \<and> 0 \<le> comment_count r
           \<and> points r = (if points c < 0 then 0 else points c)
           \<and> comment_count r = (if comment_count c < 0 then 0 else comment_count c)"
  using assms by (simp add: post_init_cases max_def)

theorem validate_clamps_counts_witness:
  "title \<lparr>title = ''T'', url = None, points = -5, username = [], comment_count = -2,
      story_id = Some ''42'', time = NoneTime\<rparr> \<noteq> []
   \<and> \<not> py_not (story_id \<lparr>title = ''T'', url = None, points = -5, username = [],
      comment_count = -2, story_id = Some ''42'', time = NoneTime\<rparr>)
   \<and> (\<exists>r. post_init \<lparr>title = ''T'', url = None, points = -5, username = [],
      comment_count = -2, story_id = Some ''42'', time = NoneTime\<rparr> = Inr r
       \<and> 0 \<le> points r \<and> 0 \<le> comment_count r \<and> points r = 0 \<and> comment_count r = 0)"
  using validate_clamps_counts [of "\<lparr>title = ''T'', url = None, points = -5, username = [],
      comment_count = -2, story_id = Some ''42'', time = NoneTime\<rparr>"]
  by simp

text \<open>
  Claim C6. Validation raises (a \<open>ValueError\<close>) exactly when the title is empty or the
  id is empty (an absent id counts as empty). Every other candidate yields a Record: the
  url is synthesized from the id when the candidate has none, an empty author becomes
  \<open>unknown\<close>, negative counts become zero, and title, id and time are kept.
\<close>

theorem validate_fails_iff_title_or_id_empty:
  "((\<exists>m. post_init c = Inl (ValueError m)) \<longleftrightarrow> (title c = [] \<or> py_not (story_id c)))
   \<and> (isl (post_init c) \<longleftrightarrow> (title c = [] \<or> py_not (story_id c)))
   \<and> (title c \<noteq> [] \<and> \<not> py_not (story_id c) \<longrightarrow>
        post_init c =
          Inr \<lparr>title = title c,
               url = (if py_not (url c)
                      then Some (''https://news.ycombinator.com/item?id='' @ py_format (story_id c))
                      else url c),
               points = (if points c < 0 then 0 else points c),
               username = (if username c = [] then ''unknown'' else username c),
               comment_count = (if comment_count c < 0 then 0 else comment_count c),
               story_id = story_id c,
               time = time c\<rparr>)"
  by (cases c) (simp add: post_init_cases max_def)

theorem validate_fails_iff_title_or_id_empty_witness:
  "post_init \<lparr>title = ''Show HN'', url = Some [], points = -3, username = [],
       comment_count = 7, story_id = Some ''12346'', time = NoneTime\<rparr>
     = Inr \<lparr>title = ''Show HN'', url = Some ''https://news.ycombinator.com/item?id=12346'',
            points = 0, username = ''unknown'', comment_count = 7, story_id = Some ''12346'',
            time = NoneTime\<rparr>
   \<and> isl (post_init \<lparr>title = [], url = None, points = 1, username = ''u'',
       comment_count = 1, story_id = Some ''1'', time = NoneTime\<rparr>)
   \<and> isl (post_init \<lparr>title = ''t'', url = None, points = 1, username = ''u'',
       comment_count = 1, story_id = None, time = NoneTime\<rparr>)"
  using
    validate_fails_iff_title_or_id_empty [of "\<lparr>title = ''Show HN'', url = Some [], points = -3,
       username = [], comment_count = 7, story_id = Some ''12346'', time = NoneTime\<rparr>"]
    validate_fails_iff_title_or_id_empty [of "\<lparr>title = [], url = None, points = 1,
       username = ''u'', comment_count = 1, story_id = Some ''1'', time = NoneTime\<rparr>"]
    validate_fails_iff_title_or_id_empty [of "\<lparr>title = ''t'', url = None, points = 1,
       username = ''u'', comment_count = 1, story_id = None, time = NoneTime\<rparr>"]
  by simp

text \<open>
  Claim C7. When a candidate without a url (absent or empty) is validated, the Record's
  url is the canonical item link ending in the candidate's id, and the Record's derived
  domain is \<open>news.ycombinator.com\<close>, the host of the default base url.
\<close>

theorem missing_url_synthesized:
  assumes "py_not (url c)" and "post_init c = Inr r"
  shows "(\<exists>i. story_id c = Some i \<and> i \<noteq> []
            \<and> url r = Some (''https://news.ycombinator.com/item?id='' @ i))
         \<and> domain r = Some ''news.ycombinator.com''
         \<and> urlparse_netloc default_base_url = Inr ''news.ycombinator.com''"
proof -
  from assms(2) have ok: "title c \<noteq> []" "\<not> py_not (story_id c)"
    by (auto simp: post_init_cases split: if_splits)
  then obtain i where i: "story_id c = Some i" "i \<noteq> []"
    by (cases "story_id c") auto
  from assms ok i have u: "url r = Some (''https://news.ycombinator.com/item?id='' @ i)"
    by (auto simp: post_init_cases)
  have "domain r = Some ''news.ycombinator.com''"
    unfolding domain_def u by (simp add: netloc_item del: append.simps)
  with i u show ?thesis by (simp add: netloc_default_base_url)
qed

theorem missing_url_synthesized_witness:
  "url (\<lparr>title = ''Test Story No URL'', url = None, points = 100, username = ''testuser'',
          comment_count = 42, story_id = Some ''12346'', time = NoneTime\<rparr>)
     = None
   \<and> domain \<lparr>title = ''Test Story No URL'',
        url = Some ''https://news.ycombinator.com/item?id=12346'', points = 100,
        username = ''testuser'', comment_count = 42, story_id = Some ''12346'',
        time = NoneTime\<rparr> = Some ''news.ycombinator.com''"
  using missing_url_synthesized [of
      "\<lparr>title = ''Test Story No URL'', url = None, points = 100, username = ''testuser'',
          comment_count = 42, story_id = Some ''12346'', time = NoneTime\<rparr>"
      "\<lparr>title = ''Test Story No URL'',
        url = Some ''https://news.ycombinator.com/item?id=12346'', points = 100,
        username = ''testuser'', comment_count = 42, story_id = Some ''12346'',
        time = NoneTime\<rparr>"]
  by (simp add: post_init_cases)

section \<open>Saving and loading\<close>


















section \<open>Parsing\<close>

lemma parse_item_story_of: "parse_item lib now it = Inr (story_of lib now it)"
  by (simp add: story_of_def parse_item_def split: sum.splits option.splits)

lemma parse_items_acc:
  "parse_items lib now items acc = Inr (acc @ List.map_filter (story_of lib now) items)"
  by (induction items arbitrary: acc)
     (simp_all add: parse_item_story_of split: option.splits)

lemma map_filter_length:
  "length (List.map_filter f xs) + length (filter (\<lambda>x. f x = None) xs) = length xs"
  by (induction xs) (auto split: option.splits)

lemma map_filter_app:
  "List.map_filter f (xs @ ys) = List.map_filter f xs @ List.map_filter f ys"
  by (induction xs) (auto split: option.splits)

lemma story_of_row:
  "t \<noteq> [] \<Longrightarrow> i \<noteq> [] \<Longrightarrow> py_strip t = t \<Longrightarrow>
     story_of example_lib now (row i t) = Some (row_story i t)"
  by (simp add: story_of_def parse_item_def parse_item_body_def row_def example_lib_def
      leading_int_def py_split_first_def py_isspace_def example_int_def digit_val_def
      post_init_cases parse_comment_count_def py_lower_def py_lower_char_def
      parse_post_time_def example_fromisoformat_def row_story_def)

lemma story_of_row_without_title: "story_of example_lib now (row_without_title i) = None"
  by (simp add: story_of_def parse_item_def parse_item_body_def row_def row_without_title_def)

text \<open>
  Claim C4, as the code has it. Parsing a page never raises because of a row: the loop
  over the rows returns the Stories of the rows that yield one, in the order of the
  page, and nothing else (no count of the rows that failed comes with the list; that
  number is the number of rows less the length of the list). A row that yields no Story
  leaves the result as it is without that row. Once the page has been fetched,
  \<open>scrape_page\<close> returns that list in both scrapers.
\<close>

theorem parse_items_isolates_failures:
  "parse_items lib now items [] = Inr (List.map_filter (story_of lib now) items)
   \<and> length (List.map_filter (story_of lib now) items) + failed_count lib now items
       = length items
   \<and> (\<not> yields_story lib now bad \<longrightarrow>
        parse_items lib now (before @ bad # after) [] = parse_items lib now (before @ after) [])
   \<and> (make_request (page_url (config s) p) w s = (Inr (Some r), w1, s1) \<longrightarrow>
        scrape_page lib p w s
          = (Inr (List.map_filter (story_of lib (datetime_now lib (clock w1)))
                    (select_athing lib (resp_text r))), w1, s1))
   \<and> (async_make_request (page_url (config a) p) w a = (Inr (Some html), w2, a2) \<longrightarrow>
        async_scrape_page lib p w a
          = (Inr (List.map_filter (story_of lib (datetime_now lib (clock w2)))
                    (select_athing lib html)), w2, a2))"
  using map_filter_length [of "story_of lib now" items]
  by (simp add: parse_items_acc failed_count_def yields_story_def map_filter_app
      scrape_page_def scrape_page_body_def async_scrape_page_def async_scrape_page_body_def)

theorem parse_items_isolates_failures_witness:
  "parse_items example_lib example_now (example_select ''page with a bad row'') []
     = Inr [row_story ''201'' ''A'', row_story ''203'' ''B'', row_story ''204'' ''C'']
   \<and> length (example_select ''page with a bad row'') = 4
   \<and> failed_count example_lib example_now (example_select ''page with a bad row'') = 1"
  using parse_items_isolates_failures [of example_lib example_now
      "example_select ''page with a bad row''"]
  by (simp add: example_select_def story_of_row story_of_row_without_title py_strip_def
      py_isspace_def)

text \<open>
  Claim C4, as stated, fails: what the parse returns holds no count of the rows that
  failed. A page of one row without a title anchor and a page of no rows return the same
  value, and one row failed on the first and none on the second.
\<close>

theorem parse_result_holds_no_failure_count:
  "parse_items example_lib example_now [row_without_title ''202''] []
     = parse_items example_lib example_now [] []
   \<and> failed_count example_lib example_now [row_without_title ''202''] = 1
   \<and> failed_count example_lib example_now [] = 0"
  by (simp add: parse_items_acc failed_count_def yields_story_def story_of_row_without_title)

section \<open>Frames: what a call leaves as it is\<close>

lemma retimed_refl [simp]: "retimed s s"
  unfolding retimed_def by (rule exI [of _ "last_request_time s"]) simp

lemma retimed_update [simp]: "retimed s (s\<lparr>last_request_time := t\<rparr>)"
  unfolding retimed_def by blast

lemma retimed_trans: "retimed s s1 \<Longrightarrow> retimed s1 s2 \<Longrightarrow> retimed s s2"
  unfolding retimed_def by auto

lemma retimed_fields:
  "retimed s s' \<Longrightarrow> config s' = config s \<and> stop_flag s' = stop_flag s
     \<and> scraping s' = scraping s \<and> robot_parser s' = robot_parser s"
  unfolding retimed_def by auto

lemma elapse_fields [simp]:
  "net (elapse d w) = net w" "jitter (elapse d w) = jitter w" "trace (elapse d w) = trace w"
  "clock (elapse d w) = clock w + d + jitter w (events w)"
  by (simp_all add: elapse_def)

lemma same_net_refl [simp]: "same_net w w"
  by (simp add: same_net_def)

lemma same_net_trans: "same_net w w1 \<Longrightarrow> same_net w1 w2 \<Longrightarrow> same_net w w2"
  by (simp add: same_net_def)

lemma same_net_elapse [simp]: "same_net w (elapse d w)"
  by (simp add: same_net_def elapse_def)

lemma same_net_http_get [simp]: "same_net w (snd (http_get u w))"
  by (simp add: same_net_def http_get_def elapse_def)


lemma same_net_asyncio_sleep [simp]: "same_net w (asyncio_sleep d w)"
  by (simp add: asyncio_sleep_def)

lemma time_sleep_nonneg: "0 \<le> d \<Longrightarrow> time_sleep d w = Inr (elapse d w)"
  by (simp add: time_sleep_def)

lemma answered_mono:
  "answered check w1 w2 u r \<Longrightarrow> same_net w w1 \<Longrightarrow> same_net w2 w' \<Longrightarrow> answered check w w' u r"
  unfolding answered_def same_net_def by (metis le_trans less_le_trans)

lemma http_get_answered:
  assumes "http_get u w = (Inr r, w')" and "check r = Inr r"
  shows "answered check w w' u r"
  unfolding answered_def
  using assms by (intro exI [of _ "length (trace w)"]) (auto simp: http_get_def)


lemma raise_for_status_Inr: "raise_for_status x = Inr y \<Longrightarrow> y = x"
  by (auto simp: raise_for_status_def split: if_splits)

lemma async_raise_for_status_Inr: "async_raise_for_status x = Inr y \<Longrightarrow> y = x"
  by (auto simp: async_raise_for_status_def split: if_splits)

text \<open>
  The two libraries differ from the status 600 on: \<open>requests\<close> lets the response pass,
  \<open>aiohttp\<close> raises.
\<close>

lemma status_600:
  "raise_for_status \<lparr>status_code = 600, resp_text = body\<rparr>
     = Inr \<lparr>status_code = 600, resp_text = body\<rparr>"
  "isl (async_raise_for_status \<lparr>status_code = 600, resp_text = body\<rparr>)"
  by (simp_all add: raise_for_status_def async_raise_for_status_def)

lemma respect_rate_limit_eq:
  "respect_rate_limit w s =
     (let w1 = (if clock w - last_request_time s < rate_limit (config s)
                then elapse (rate_limit (config s) - (clock w - last_request_time s)) w else w)
      in (Inr (), w1, s\<lparr>last_request_time := clock w1\<rparr>))"
  by (simp add: respect_rate_limit_def time_sleep_def Let_def)

lemma respect_rate_limit_frame:
  "\<exists>w1. respect_rate_limit w s = (Inr (), w1, s\<lparr>last_request_time := clock w1\<rparr>)
     \<and> same_net w w1 \<and> trace w1 = trace w"
  by (simp add: respect_rate_limit_eq Let_def)

lemma attempt_request_frame:
  assumes "attempt_request u w s = (r, w', s')"
  shows "same_net w w' \<and> retimed s s'
     \<and> (\<forall>x. r = Inr x \<longrightarrow> answered raise_for_status w w' u x)"
proof -
  obtain w1 where w1: "respect_rate_limit w s = (Inr (), w1, s\<lparr>last_request_time := clock w1\<rparr>)"
      "same_net w w1"
    using respect_rate_limit_frame by blast
  obtain r2 w2 where g: "http_get u w1 = (r2, w2)"
    by (cases "http_get u w1") auto
  have sn2: "same_net w1 w2"
    using same_net_http_get [of w1 u] g by simp
  with w1(2) have sn: "same_net w w2" by (rule same_net_trans)
  from assms w1(1) g have w': "w' = w2" and s': "s' = s\<lparr>last_request_time := clock w1\<rparr>"
    by (auto simp: attempt_request_def split: sum.splits)
  have "answered raise_for_status w w' u x" if "r = Inr x" for x
  proof -
    from assms w1(1) g that have "r2 = Inr x" "raise_for_status x = Inr x"
      by (auto simp: attempt_request_def split: sum.splits dest: raise_for_status_Inr)
    with g have "answered raise_for_status w1 w2 u x"
      by (intro http_get_answered) simp_all
    then show ?thesis
      unfolding w' using w1(2) same_net_refl by (rule answered_mono)
  qed
  with sn w' s' show ?thesis by simp
qed

lemma make_request_from_frame:
  "make_request_from u atts w s = (r, w', s') \<Longrightarrow>
     same_net w w' \<and> retimed s s'
     \<and> (\<forall>x. r = Inr (Some x) \<longrightarrow> answered raise_for_status w w' u x)"
proof (induction atts arbitrary: w s)
  case Nil
  then show ?case by auto
next
  case (Cons attempt rest)
  obtain r1 w1 s1 where a: "attempt_request u w s = (r1, w1, s1)"
    by (cases "attempt_request u w s") auto
  note f = attempt_request_frame [OF a]
  show ?case
  proof (cases r1)
    case (Inr x)
    with Cons.prems a f show ?thesis by auto
  next
    case (Inl e)
    show ?thesis
    proof (cases "is_request_exception e \<and> int attempt \<noteq> max_retries (config s1) - 1")
      case False
      with Cons.prems a f Inl show ?thesis by (auto split: if_splits)
    next
      case True
      have sl: "time_sleep (2 ^ attempt) w1 = Inr (elapse (2 ^ attempt) w1)"
        by (rule time_sleep_nonneg) simp
      from Cons.prems a Inl True sl
      have rec: "make_request_from u rest (elapse (2 ^ attempt) w1) s1 = (r, w', s')"
        by simp
      have sn: "same_net w (elapse (2 ^ attempt) w1)"
        using f same_net_elapse by (blast intro: same_net_trans)
      from Cons.IH [OF rec] sn f show ?thesis
        by (blast intro: same_net_trans retimed_trans answered_mono same_net_refl)
    qed
  qed
qed

lemma make_request_frame:
  "make_request u w s = (r, w', s') \<Longrightarrow>
     same_net w w' \<and> retimed s s'
     \<and> (\<forall>x. r = Inr (Some x) \<longrightarrow> answered raise_for_status w w' u x)"
  unfolding make_request_def by (rule make_request_from_frame)

text \<open>
  What \<open>scrape_page\<close> returns, by what the request of the page gave: the Stories of
  the body, or a \<open>ScrapingError\<close> that quotes the page and the exception.
\<close>

lemma scrape_page_cases:
  assumes "make_request (page_url (config s) p) w s = (r, w', s')"
  shows "scrape_page lib p w s =
     (case r of
        Inl e \<Rightarrow>
          (Inl (ScrapingError (''Failed to scrape page '' @ str_int p @ '': '' @ str_error e)), w', s')
      | Inr None \<Rightarrow>
          (Inl (ScrapingError (''Failed to scrape page '' @ str_int p @ '': ''
                  @ ''NoneType object has no attribute text'')), w', s')
      | Inr (Some x) \<Rightarrow>
          (Inr (body_stories lib (datetime_now lib (clock w')) (resp_text x)), w', s'))"
  using assms
  by (simp add: scrape_page_def scrape_page_body_def parse_items_acc body_stories_def
      split: sum.splits option.splits)

lemma scrape_page_frame:
  assumes "scrape_page lib p w s = (r, w', s')"
  shows "same_net w w' \<and> retimed s s'
     \<and> (case r of
           Inl e \<Rightarrow> \<exists>m. e = ScrapingError m
         | Inr stories \<Rightarrow>
             \<exists>x. answered raise_for_status w w' (page_url (config s) p) x
                \<and> stories = body_stories lib (datetime_now lib (clock w')) (resp_text x))"
proof -
  obtain r1 w1 s1 where m: "make_request (page_url (config s) p) w s = (r1, w1, s1)"
    by (cases "make_request (page_url (config s) p) w s") auto
  note f = make_request_frame [OF m]
  show ?thesis
    using assms f unfolding scrape_page_cases [OF m]
    by (auto split: sum.splits option.splits)
qed


lemma scrape_loop_stopped:
  "stop_flag s \<Longrightarrow> scrape_loop lib n pages acc w s = (Inr acc, w, s)"
  by (cases pages) simp_all


subsection \<open>The concurrent scraper\<close>

lemma retimed_session: "retimed s s' \<Longrightarrow> session s' = session s"
  unfolding retimed_def by auto

lemma async_respect_rate_limit_frame:
  "\<exists>w1. async_respect_rate_limit w s = (w1, s\<lparr>last_request_time := clock w1\<rparr>)
     \<and> same_net w w1 \<and> trace w1 = trace w"
  by (simp add: async_respect_rate_limit_def asyncio_sleep_def Let_def)

lemma session_get_frame:
  "session_get u w s = (r, w') \<Longrightarrow>
     same_net w w' \<and> (\<forall>x. r = Inr x \<longrightarrow> session s = OpenSession \<and> http_get u w = (Inr x, w'))"
  by (cases "session s") (auto simp: session_get_def http_get_def same_net_def)

lemma async_attempt_frame:
  assumes "async_attempt u w s = (r, w', s')"
  shows "same_net w w' \<and> retimed s s'
     \<and> (\<forall>html. r = Inr html \<longrightarrow>
           (\<exists>x. answered async_raise_for_status w w' u x \<and> html = resp_text x))"
proof -
  obtain w1 where w1: "async_respect_rate_limit w s = (w1, s\<lparr>last_request_time := clock w1\<rparr>)"
      "same_net w w1"
    using async_respect_rate_limit_frame by blast
  let ?s1 = "s\<lparr>last_request_time := clock w1\<rparr>"
  obtain r2 w2 where g: "session_get u w1 ?s1 = (r2, w2)"
    by (cases "session_get u w1 ?s1") auto
  note f = session_get_frame [OF g]
  from f w1(2) have sn: "same_net w w2" by (blast intro: same_net_trans)
  from assms w1(1) g have s': "s' = ?s1" and w': "w' = w \<or> w' = w1 \<or> w' = w2"
    by (auto simp: async_attempt_def split: sum.splits)
  from assms w1 g sn have snw: "same_net w w'"
    by (auto simp: async_attempt_def split: sum.splits)
  have "\<exists>x. answered async_raise_for_status w w' u x \<and> html = resp_text x" if "r = Inr html" for html
  proof -
    from assms w1(1) g that obtain x where x: "r2 = Inr x" "async_raise_for_status x = Inr x"
        "html = resp_text x" "w' = w2"
      by (auto simp: async_attempt_def split: sum.splits dest: async_raise_for_status_Inr)
    with f g have "http_get u w1 = (Inr x, w2)" by simp
    with x(2) have "answered async_raise_for_status w1 w2 u x"
      by (intro http_get_answered) simp_all
    then have "answered async_raise_for_status w w' u x"
      unfolding x(4) using w1(2) same_net_refl by (rule answered_mono)
    with x(3) show ?thesis by blast
  qed
  with snw s' show ?thesis by simp
qed

lemma async_make_request_from_frame:
  "async_make_request_from u atts w s = (r, w', s') \<Longrightarrow>
     same_net w w' \<and> retimed s s'
     \<and> (\<forall>html. r = Inr (Some html) \<longrightarrow>
           (\<exists>x. answered async_raise_for_status w w' u x \<and> html = resp_text x))"
proof (induction atts arbitrary: w s)
  case Nil
  then show ?case by auto
next
  case (Cons attempt rest)
  obtain r1 w1 s1 where a: "async_attempt u w s = (r1, w1, s1)"
    by (cases "async_attempt u w s") auto
  note f = async_attempt_frame [OF a]
  show ?case
  proof (cases r1)
    case (Inr x)
    with Cons.prems a f show ?thesis by auto
  next
    case (Inl e)
    show ?thesis
    proof (cases "int attempt = max_retries (config s1) - 1")
      case True
      with Cons.prems a f Inl show ?thesis by auto
    next
      case False
      with Cons.prems a Inl
      have rec: "async_make_request_from u rest (asyncio_sleep (2 ^ attempt) w1) s1 = (r, w', s')"
        by simp
      have sn: "same_net w (asyncio_sleep (2 ^ attempt) w1)"
        using f same_net_asyncio_sleep by (blast intro: same_net_trans)
      from Cons.IH [OF rec] sn f show ?thesis
        by (blast intro: same_net_trans retimed_trans answered_mono same_net_refl)
    qed
  qed
qed

lemma async_make_request_frame:
  "async_make_request u w s = (r, w', s') \<Longrightarrow>
     same_net w w' \<and> retimed s s'
     \<and> (\<forall>html. r = Inr (Some html) \<longrightarrow>
           (\<exists>x. answered async_raise_for_status w w' u x \<and> html = resp_text x))"
  unfolding async_make_request_def by (rule async_make_request_from_frame)

text \<open>
  What the concurrent \<open>scrape_page\<close> returns, by what the request of the page gave: the
  Stories of the body, or the empty list.
\<close>

lemma async_scrape_page_cases:
  assumes "async_make_request (page_url (config s) p) w s = (r, w', s')"
  shows "async_scrape_page lib p w s =
     (case r of
        Inl e \<Rightarrow> (Inr [], w', s')
      | Inr None \<Rightarrow> (Inr [], w', s')
      | Inr (Some html) \<Rightarrow> (Inr (body_stories lib (datetime_now lib (clock w')) html), w', s'))"
  using assms
  by (simp add: async_scrape_page_def async_scrape_page_body_def parse_items_acc body_stories_def
      split: sum.splits option.splits)

lemma async_scrape_page_frame:
  assumes "async_scrape_page lib p w s = (r, w', s')"
  shows "same_net w w' \<and> retimed s s'
     \<and> (\<exists>stories. r = Inr stories
          \<and> (stories = []
             \<or> parsed_from_page lib async_raise_for_status w w' (page_url (config s) p) stories))"
proof -
  let ?u = "page_url (config s) p"
  obtain r1 w1 s1 where m: "async_make_request ?u w s = (r1, w1, s1)"
    by (cases "async_make_request ?u w s") auto
  note f = async_make_request_frame [OF m]
  show ?thesis
    using assms f unfolding async_scrape_page_cases [OF m] parsed_from_page_def
    by (auto split: sum.splits option.splits)
qed

lemma async_scrape_loop_stopped:
  "stop_flag s \<Longrightarrow> async_scrape_loop lib n pages acc w s = (Inr acc, w, s)"
  by (cases pages) simp_all


section \<open>The pages of a run, one after the other\<close>






section \<open>A page that fails\<close>



section \<open>Runs over a network that answers by the url alone\<close>


lemma answers_elapse [simp]: "answers (elapse d w) resp = answers w resp"
  by (simp add: answers_def)

lemma served_SomeD:
  "served resp u = Some html \<Longrightarrow> \<exists>x. resp u = Inr x \<and> raise_for_status x = Inr x \<and> resp_text x = html"
  by (auto simp: served_def split: sum.splits dest: raise_for_status_Inr)




subsection \<open>The sequential scraper\<close>

lemma attempt_request_served:
  assumes "answers w resp" and "served resp u = Some html"
  shows "\<exists>x w' s'. attempt_request u w s = (Inr x, w', s') \<and> resp_text x = html \<and> resp u = Inr x"
proof -
  obtain w1 where w1: "respect_rate_limit w s = (Inr (), w1, s\<lparr>last_request_time := clock w1\<rparr>)"
      "same_net w w1"
    using respect_rate_limit_frame by blast
  from served_SomeD [OF assms(2)] obtain x where x: "resp u = Inr x"
      "raise_for_status x = Inr x" "resp_text x = html" by blast
  from assms(1) w1(2) have "net w1 (length (trace w1)) u = Inr x"
    using x(1) by (simp add: answers_def same_net_def)
  with w1 x show ?thesis
    by (simp add: attempt_request_def http_get_def)
qed

lemma scrape_page_served:
  assumes "answers w resp" and "served resp (page_url (config s) p) = Some html"
    and "0 < max_retries (config s)"
  shows "\<exists>w' s'. scrape_page lib p w s
           = (Inr (page_stories lib resp (config s) p (datetime_now lib (clock w'))), w', s')"
proof -
  let ?u = "page_url (config s) p"
  from assms(3) obtain rest where "[0 ..< nat (max_retries (config s))] = 0 # rest"
    by (cases "nat (max_retries (config s))") (auto simp: upt_rec)
  moreover from attempt_request_served [OF assms(1,2)]
  obtain x w' s' where "attempt_request ?u w s = (Inr x, w', s')" "resp_text x = html" by blast
  ultimately have "make_request ?u w s = (Inr (Some x), w', s')"
    by (simp add: make_request_def)
  from scrape_page_cases [OF this] assms(2) \<open>resp_text x = html\<close> show ?thesis
    by (simp add: page_stories_def)
qed






subsection \<open>The concurrent scraper\<close>








subsection \<open>The networks of the examples\<close>

lemma page_url_default:
  assumes "base_url cfg = default_base_url"
  shows "page_url cfg 1 = ''https://news.ycombinator.com/news?p=1''"
    and "page_url cfg 2 = ''https://news.ycombinator.com/news?p=2''"
  using assms by (simp_all add: page_url_def default_base_url_def str_int_def)

lemma base_url_default [simp]:
  "base_url default_config = default_base_url"
  "base_url (default_config\<lparr>rate_limit := d\<rparr>) = default_base_url"
  by (simp_all add: default_config_def)

lemma select_example [simp]:
  "select_athing example_lib = example_select"
  by (simp add: example_lib_def)

lemma page_one_stories:
  "body_stories example_lib now ''page one''
     = [row_story ''101'' ''First story'', row_story ''102'' ''Second story'']"
  by (simp add: body_stories_def example_select_def story_of_row py_strip_def py_isspace_def)

lemma page_two_stories:
  "body_stories example_lib now ''page two''
     = [row_story ''102'' ''Second story'', row_story ''103'' ''Third story'']"
  by (simp add: body_stories_def example_select_def story_of_row py_strip_def py_isspace_def)


lemma both_pages_served_served:
  assumes "base_url cfg = default_base_url"
  shows "served both_pages_served (page_url cfg 1) = Some ''page one''"
    and "served both_pages_served (page_url cfg 2) = Some ''page two''"
    and "async_served both_pages_served (page_url cfg 1) = Some ''page one''"
    and "async_served both_pages_served (page_url cfg 2) = Some ''page two''"
  by (simp_all add: page_url_default [OF assms] served_def async_served_def
      both_pages_served_def raise_for_status_def async_raise_for_status_def)


lemma both_pages_served_stories:
  assumes "base_url cfg = default_base_url"
  shows "page_stories example_lib both_pages_served cfg 1 now
     = [row_story ''101'' ''First story'', row_story ''102'' ''Second story'']"
    and "page_stories example_lib both_pages_served cfg 2 now
     = [row_story ''102'' ''Second story'', row_story ''103'' ''Third story'']"
    and "async_page_stories example_lib both_pages_served cfg 1 now
     = [row_story ''101'' ''First story'', row_story ''102'' ''Second story'']"
    and "async_page_stories example_lib both_pages_served cfg 2 now
     = [row_story ''102'' ''Second story'', row_story ''103'' ''Third story'']"
  by (simp_all add: page_stories_def async_page_stories_def both_pages_served_served [OF assms]
      page_one_stories page_two_stories)

lemma answers_example [simp]: "answers (example_world resp) resp"
  by (simp add: answers_def example_world_def)






section \<open>The list a run returns\<close>





section \<open>The stop flag\<close>

lemma scrape_stories_stopped:
  "stop_flag s \<Longrightarrow> scrape_stories lib n w s = (Inr [], w, s)"
  by (simp add: scrape_stories_def scrape_loop_stopped)

lemma async_scrape_stories_stopped:
  "stop_flag a \<Longrightarrow>
     async_scrape_stories lib n w a = (Inr [], w, a\<lparr>session := ClosedSession\<rparr>)"
  by (simp add: async_scrape_stories_def async_scrape_loop_stopped)

lemma exec_call_flag:
  assumes "stop_flag s"
  shows "stop_flag (snd (exec_call lib c (w, s)))"
proof (cases c)
  case (ScrapePage p)
  obtain r w' s' where pg: "scrape_page lib p w s = (r, w', s')"
    by (cases "scrape_page lib p w s") auto
  from scrape_page_frame [OF pg] assms pg ScrapePage show ?thesis
    by (auto dest: retimed_fields)
next
  case (ScrapeStories n)
  with assms show ?thesis by (simp add: scrape_stories_stopped)
next
  case (StartScraping n)
  with assms show ?thesis
    by (simp add: start_scraping_def scrape_stories_stopped)
next
  case StopScraping
  then show ?thesis by (simp add: stop_scraping_def)
qed

lemma exec_calls_flag:
  "stop_flag (snd ws) \<Longrightarrow> stop_flag (snd (exec_calls lib calls ws))"
  unfolding exec_calls_def
proof (induction calls arbitrary: ws)
  case Nil
  then show ?case by simp
next
  case (Cons c calls)
  obtain w s where ws: "ws = (w, s)" by (cases ws)
  with Cons.prems have "stop_flag (snd (exec_call lib c ws))"
    using exec_call_flag [of s lib c w] by simp
  from Cons.IH [OF this] show ?case by simp
qed

text \<open>
  The concurrent scraper: a call leaves the flag set, and leaves the session as it is or
  closed, so that between two calls of a client the session is never open.
\<close>

lemma async_exec_call_flag:
  assumes "stop_flag a"
  shows "stop_flag (snd (async_exec_call lib c (w, a)))"
proof (cases c)
  case (ScrapePage p)
  obtain r w' a' where pg: "async_scrape_page lib p w a = (r, w', a')"
    by (cases "async_scrape_page lib p w a") auto
  from async_scrape_page_frame [OF pg] assms pg ScrapePage show ?thesis
    by (auto dest: retimed_fields)
next
  case (ScrapeStories n)
  with assms show ?thesis by (simp add: async_scrape_stories_stopped)
next
  case (StartScraping n)
  with assms show ?thesis
    by (simp add: async_start_scraping_def async_scrape_stories_stopped)
next
  case StopScraping
  then show ?thesis by (simp add: async_stop_scraping_def)
qed

lemma async_exec_call_session:
  assumes "stop_flag a" and "session a \<noteq> OpenSession"
  shows "session (snd (async_exec_call lib c (w, a))) \<noteq> OpenSession"
proof (cases c)
  case (ScrapePage p)
  obtain r w' a' where pg: "async_scrape_page lib p w a = (r, w', a')"
    by (cases "async_scrape_page lib p w a") auto
  from async_scrape_page_frame [OF pg] assms pg ScrapePage show ?thesis
    by (auto dest: retimed_session)
next
  case (ScrapeStories n)
  with assms show ?thesis by (simp add: async_scrape_stories_stopped)
next
  case (StartScraping n)
  with assms show ?thesis
    by (simp add: async_start_scraping_def async_scrape_stories_stopped)
next
  case StopScraping
  with assms show ?thesis by (simp add: async_stop_scraping_def)
qed

lemma async_exec_calls_flag:
  "stop_flag (snd ws) \<Longrightarrow> stop_flag (snd (async_exec_calls lib calls ws))"
  unfolding async_exec_calls_def
proof (induction calls arbitrary: ws)
  case Nil
  then show ?case by simp
next
  case (Cons c calls)
  obtain w a where ws: "ws = (w, a)" by (cases ws)
  with Cons.prems have "stop_flag (snd (async_exec_call lib c ws))"
    using async_exec_call_flag [of a lib c w] by simp
  from Cons.IH [OF this] show ?case by simp
qed

lemma async_exec_calls_session:
  "stop_flag (snd ws) \<Longrightarrow> session (snd ws) \<noteq> OpenSession \<Longrightarrow>
     session (snd (async_exec_calls lib calls ws)) \<noteq> OpenSession"
  unfolding async_exec_calls_def
proof (induction calls arbitrary: ws)
  case Nil
  then show ?case by simp
next
  case (Cons c calls)
  obtain w a where ws: "ws = (w, a)" by (cases ws)
  with Cons.prems have "stop_flag (snd (async_exec_call lib c ws))"
      "session (snd (async_exec_call lib c ws)) \<noteq> OpenSession"
    using async_exec_call_flag [of a lib c w] async_exec_call_session [of a lib c w] by simp_all
  from Cons.IH [OF this] show ?case by simp
qed

text \<open>
  The sequential \<open>scrape_page\<close> does not read the flag: on a scraper with the flag set to
  \<open>b\<close> it does what it does on the scraper as it is, and leaves the flag at \<open>b\<close>.
\<close>

lemma attempt_request_flag:
  "attempt_request u w (s\<lparr>stop_flag := b\<rparr>) =
     (case attempt_request u w s of (r, w', s') \<Rightarrow> (r, w', s'\<lparr>stop_flag := b\<rparr>))"
  by (simp add: attempt_request_def respect_rate_limit_eq Let_def split: prod.splits sum.splits)

lemma make_request_from_flag:
  "make_request_from u atts w (s\<lparr>stop_flag := b\<rparr>) =
     (case make_request_from u atts w s of (r, w', s') \<Rightarrow> (r, w', s'\<lparr>stop_flag := b\<rparr>))"
proof (induction atts arbitrary: w s)
  case Nil
  show ?case by simp
next
  case (Cons attempt rest)
  obtain r1 w1 s1 where a: "attempt_request u w s = (r1, w1, s1)"
    by (cases "attempt_request u w s") auto
  show ?case
    by (simp add: attempt_request_flag a Cons.IH split: sum.splits)
qed

lemma scrape_page_flag:
  "scrape_page lib p w (s\<lparr>stop_flag := b\<rparr>) =
     (case scrape_page lib p w s of (r, w', s') \<Rightarrow> (r, w', s'\<lparr>stop_flag := b\<rparr>))"
proof -
  obtain r1 w1 s1 where m: "make_request (page_url (config s) p) w s = (r1, w1, s1)"
    by (cases "make_request (page_url (config s) p) w s") auto
  then have "make_request (page_url (config (s\<lparr>stop_flag := b\<rparr>)) p) w (s\<lparr>stop_flag := b\<rparr>)
      = (r1, w1, s1\<lparr>stop_flag := b\<rparr>)"
    by (simp add: make_request_def make_request_from_flag)
  from scrape_page_cases [OF this] scrape_page_cases [OF m] show ?thesis
    by (simp split: sum.splits option.splits)
qed

text \<open>
  Without an open session no attempt of the concurrent scraper makes a request, and its
  \<open>scrape_page\<close> returns the empty list.
\<close>

lemma trace_asyncio_sleep [simp]: "trace (asyncio_sleep d w) = trace w"
  by (simp add: asyncio_sleep_def)

lemma async_attempt_closed:
  assumes "session s \<noteq> OpenSession" and "async_attempt u w s = (r, w', s')"
  shows "trace w' = trace w \<and> (\<exists>e. r = Inl e)"
proof -
  obtain w1 where w1: "async_respect_rate_limit w s = (w1, s\<lparr>last_request_time := clock w1\<rparr>)"
      "trace w1 = trace w"
    using async_respect_rate_limit_frame by blast
  with assms show ?thesis
    by (cases "session s") (auto simp: async_attempt_def session_get_def split: sum.splits)
qed

lemma async_make_request_from_closed:
  "session s \<noteq> OpenSession \<Longrightarrow> async_make_request_from u atts w s = (r, w', s') \<Longrightarrow>
     trace w' = trace w \<and> (\<forall>html. r \<noteq> Inr (Some html))"
proof (induction atts arbitrary: w s)
  case Nil
  then show ?case by auto
next
  case (Cons attempt rest)
  obtain r1 w1 s1 where a: "async_attempt u w s = (r1, w1, s1)"
    by (cases "async_attempt u w s") auto
  from async_attempt_closed [OF Cons.prems(1) a] obtain e where e: "trace w1 = trace w" "r1 = Inl e"
    by blast
  from async_attempt_frame [OF a] Cons.prems(1) have s1: "session s1 \<noteq> OpenSession"
    by (auto dest: retimed_session)
  show ?case
  proof (cases "int attempt = max_retries (config s1) - 1")
    case True
    with Cons.prems(2) a e show ?thesis by auto
  next
    case False
    with Cons.prems(2) a e
    have rec: "async_make_request_from u rest (asyncio_sleep (2 ^ attempt) w1) s1 = (r, w', s')"
      by simp
    from Cons.IH [OF s1 rec] e(1) show ?thesis by simp
  qed
qed

lemma async_scrape_page_closed:
  assumes "session s \<noteq> OpenSession"
  shows "\<exists>w' s'. async_scrape_page lib p w s = (Inr [], w', s') \<and> trace w' = trace w"
proof -
  let ?u = "page_url (config s) p"
  obtain r1 w1 s1 where m: "async_make_request ?u w s = (r1, w1, s1)"
    by (cases "async_make_request ?u w s") auto
  from async_make_request_from_closed [OF assms m [unfolded async_make_request_def]]
  have "trace w1 = trace w" "\<forall>html. r1 \<noteq> Inr (Some html)" by simp_all
  then show ?thesis
    unfolding async_scrape_page_cases [OF m] by (auto split: sum.splits option.splits)
qed

text \<open>
  Claim C10, as the code has it. After \<open>stop_scraping\<close>, whatever calls of the public
  methods follow on the same scraper, the stop flag is still set, and a call of
  \<open>scrape_stories\<close> then returns the empty list and leaves the world as it is: no request
  is made, no time passes. The flag ends runs only: \<open>scrape_page\<close> of the sequential
  scraper does on the stopped scraper what it does on the same scraper with the flag
  cleared, request and Stories included, and leaves the flag set. \<open>scrape_page\<close> of the
  concurrent scraper, called by a client (the session is not open then), makes no
  request and returns the empty list.
\<close>

theorem stop_flag_ends_runs_not_pages:
  "(case exec_calls lib calls (snd (stop_scraping w s)) of
      (w1, s1) \<Rightarrow> stop_flag s1 \<and> scrape_stories lib n w1 s1 = (Inr [], w1, s1)
         \<and> scrape_page lib p w1 s1
             = (case scrape_page lib p w1 (s1\<lparr>stop_flag := False\<rparr>) of
                  (r, w2, s2) \<Rightarrow> (r, w2, s2\<lparr>stop_flag := True\<rparr>)))
   \<and> (case async_exec_calls lib calls (snd (async_stop_scraping v a)) of
      (v1, a1) \<Rightarrow> stop_flag a1
         \<and> async_scrape_stories lib n v1 a1 = (Inr [], v1, a1\<lparr>session := ClosedSession\<rparr>)
         \<and> (session a \<noteq> OpenSession \<longrightarrow>
              (\<exists>v2 a2. async_scrape_page lib p v1 a1 = (Inr [], v2, a2) \<and> trace v2 = trace v1)))"
proof -
  obtain w1 s1 where ws: "exec_calls lib calls (snd (stop_scraping w s)) = (w1, s1)"
    by (cases "exec_calls lib calls (snd (stop_scraping w s))")
  have "stop_flag (snd (snd (stop_scraping w s)))" by (simp add: stop_scraping_def)
  from exec_calls_flag [OF this, of lib calls] ws have st: "stop_flag s1" by simp
  then have "s1\<lparr>stop_flag := False\<rparr>\<lparr>stop_flag := True\<rparr> = s1" by simp
  with scrape_page_flag [where lib = lib and p = p and w = w1
      and s = "s1\<lparr>stop_flag := False\<rparr>" and b = True]
  have "scrape_page lib p w1 s1
             = (case scrape_page lib p w1 (s1\<lparr>stop_flag := False\<rparr>) of
                  (r, w2, s2) \<Rightarrow> (r, w2, s2\<lparr>stop_flag := True\<rparr>))"
    by simp
  with st have 1: "stop_flag s1 \<and> scrape_stories lib n w1 s1 = (Inr [], w1, s1)
         \<and> scrape_page lib p w1 s1
             = (case scrape_page lib p w1 (s1\<lparr>stop_flag := False\<rparr>) of
                  (r, w2, s2) \<Rightarrow> (r, w2, s2\<lparr>stop_flag := True\<rparr>))"
    by (simp add: scrape_stories_stopped)
  obtain v1 a1 where va: "async_exec_calls lib calls (snd (async_stop_scraping v a)) = (v1, a1)"
    by (cases "async_exec_calls lib calls (snd (async_stop_scraping v a))")
  have f: "stop_flag (snd (snd (async_stop_scraping v a)))"
    by (simp add: async_stop_scraping_def)
  from async_exec_calls_flag [OF f, of lib calls] va have sa: "stop_flag a1" by simp
  have "\<exists>v2 a2. async_scrape_page lib p v1 a1 = (Inr [], v2, a2) \<and> trace v2 = trace v1"
    if "session a \<noteq> OpenSession"
  proof -
    from that have "session (snd (snd (async_stop_scraping v a))) \<noteq> OpenSession"
      by (simp add: async_stop_scraping_def)
    from async_exec_calls_session [OF f this, of lib calls] va
    have "session a1 \<noteq> OpenSession" by simp
    then show ?thesis by (rule async_scrape_page_closed)
  qed
  with sa have 2: "stop_flag a1
         \<and> async_scrape_stories lib n v1 a1 = (Inr [], v1, a1\<lparr>session := ClosedSession\<rparr>)
         \<and> (session a \<noteq> OpenSession \<longrightarrow>
              (\<exists>v2 a2. async_scrape_page lib p v1 a1 = (Inr [], v2, a2) \<and> trace v2 = trace v1))"
    by (simp add: async_scrape_stories_stopped)
  from 1 2 show ?thesis unfolding ws va by simp
qed

theorem stop_flag_ends_runs_not_pages_witness:
  "fst (scrape_stories example_lib 2
      (fst (exec_calls example_lib [ScrapeStories 1, StartScraping 2]
             (snd (stop_scraping (example_world both_pages_served) (fresh_scraper default_config)))))
      (snd (exec_calls example_lib [ScrapeStories 1, StartScraping 2]
             (snd (stop_scraping (example_world both_pages_served) (fresh_scraper default_config))))))
    = Inr []
   \<and> fst (async_scrape_stories example_lib 2
      (fst (async_exec_calls example_lib [ScrapeStories 1, StartScraping 2]
             (snd (async_stop_scraping (example_world both_pages_served) (fresh_async_scraper default_config)))))
      (snd (async_exec_calls example_lib [ScrapeStories 1, StartScraping 2]
             (snd (async_stop_scraping (example_world both_pages_served) (fresh_async_scraper default_config))))))
    = Inr []
   \<and> fst (async_scrape_page example_lib 1
      (fst (async_exec_calls example_lib [ScrapeStories 1, StartScraping 2]
             (snd (async_stop_scraping (example_world both_pages_served) (fresh_async_scraper default_config)))))
      (snd (async_exec_calls example_lib [ScrapeStories 1, StartScraping 2]
             (snd (async_stop_scraping (example_world both_pages_served) (fresh_async_scraper default_config))))))
    = Inr []"
proof -
  have "session (fresh_async_scraper default_config) \<noteq> OpenSession"
    by (simp add: fresh_async_scraper_def)
  with stop_flag_ends_runs_not_pages [where lib = example_lib
      and calls = "[ScrapeStories 1, StartScraping 2]"
      and w = "example_world both_pages_served" and s = "fresh_scraper default_config"
      and v = "example_world both_pages_served"
      and n = 2 and p = 1 and a = "fresh_async_scraper default_config"]
  show ?thesis
    by (auto split: prod.splits)
qed

text \<open>
  Claim C10, as stated, fails: a stopped scraper does produce Records again. After
  \<open>stop_scraping\<close> the flag is set, and \<open>scrape_page\<close> on the stopped sequential scraper
  fetches page 1 and returns its two Stories.
\<close>

theorem stopped_scraper_still_scrapes_a_page:
  "stop_flag (snd (snd (stop_scraping (example_world both_pages_served)
                          (fresh_scraper default_config))))
   \<and> fst (scrape_page example_lib 1
        (fst (snd (stop_scraping (example_world both_pages_served)
                     (fresh_scraper default_config))))
        (snd (snd (stop_scraping (example_world both_pages_served)
                     (fresh_scraper default_config)))))
     = Inr [row_story ''101'' ''First story'', row_story ''102'' ''Second story'']"
proof -
  let ?s = "(fresh_scraper default_config)\<lparr>scraping := False, stop_flag := True\<rparr>"
  have s: "config ?s = default_config" "0 < max_retries (config ?s)"
    by (simp_all add: fresh_scraper_def default_config_def)
  have b: "base_url (config ?s) = default_base_url" by (simp add: s(1))
  from scrape_page_served
    [OF answers_example both_pages_served_served(1) [OF b] s(2), of example_lib]
  obtain w' s' where "scrape_page example_lib 1 (example_world both_pages_served) ?s
     = (Inr (page_stories example_lib both_pages_served (config ?s) 1
               (datetime_now example_lib (clock w'))), w', s')"
    by blast
  then have "fst (scrape_page example_lib 1 (example_world both_pages_served) ?s)
     = Inr [row_story ''101'' ''First story'', row_story ''102'' ''Second story'']"
    unfolding both_pages_served_stories(1) [OF b] by simp
  then show ?thesis by (simp add: stop_scraping_def)
qed

section \<open>The rate limit\<close>

lemma paced_start: "steady w \<Longrightarrow> paced d (trace w) w s"
  by (simp add: paced_def)

lemma paced_requests_since:
  assumes "paced d (trace w0) w s"
  shows "spaced d (requests_since w0 w)"
proof -
  from assms obtain new where "trace w = new @ trace w0" "spaced d (map fst new)"
    by (auto simp: paced_def)
  then show ?thesis by (simp add: requests_since_def)
qed

lemma steady_elapse [simp]: "steady (elapse d w) = steady w"
  by (simp add: steady_def)

lemma paced_elapse:
  assumes "paced d tr0 w s" and "0 \<le> x"
  shows "paced d tr0 (elapse x w) s"
proof -
  from assms(1) have "0 \<le> jitter w (events w)" by (simp add: paced_def steady_def)
  with assms show ?thesis
    by (auto simp: paced_def)
qed

lemma paced_time_sleep:
  "paced d tr0 w s \<Longrightarrow> time_sleep x w = Inr w' \<Longrightarrow> paced d tr0 w' s"
  by (auto simp: time_sleep_def paced_elapse split: if_splits)

lemma paced_asyncio_sleep:
  "paced d tr0 w s \<Longrightarrow> paced d tr0 (asyncio_sleep x w) s"
  by (auto simp: asyncio_sleep_def paced_elapse)

lemma spaced_Cons:
  "spaced d ts \<Longrightarrow> (ts \<noteq> [] \<Longrightarrow> hd ts + d \<le> t) \<Longrightarrow> spaced d (t # ts)"
  by (cases ts) auto

text \<open>The world and the scraper after the rate limit and one request.\<close>

lemma paced_request:
  fixes s :: "'a scraper_base_scheme"
  assumes p: "paced d tr0 w s" and d: "d = rate_limit (config s)"
    and w1: "w1 = (if clock w - last_request_time s < d
                   then elapse (d - (clock w - last_request_time s)) w else w)"
  shows "paced d tr0 (snd (http_get u w1)) (s\<lparr>last_request_time := clock w1\<rparr>)"
proof -
  from p obtain new where new: "trace w = new @ tr0" "spaced d (map fst new)"
      "new \<noteq> [] \<Longrightarrow> fst (hd new) \<le> last_request_time s \<and> last_request_time s \<le> clock w"
    and st: "steady w"
    by (auto simp: paced_def)
  from st have j: "0 \<le> jitter w k" for k by (simp add: steady_def)
  have tr1: "trace w1 = new @ tr0" and st1: "steady w1" and jw1: "jitter w1 = jitter w"
    using new(1) st w1 by auto
  have gap: "fst (hd new) + d \<le> clock w1" if "new \<noteq> []"
  proof -
    from new(3) [OF that] have l: "fst (hd new) \<le> last_request_time s" by simp
    show ?thesis
      using j [of "events w"] l by (simp add: w1)
  qed
  have sp: "spaced d (clock w1 # map fst new)"
    using new(2) gap by (intro spaced_Cons) (auto simp: hd_map)
  have "0 \<le> jitter w1 (events w1)" using j jw1 by simp
  then show ?thesis
    using tr1 st1 sp
    by (auto simp: paced_def http_get_def steady_def intro!: exI [of _ "(clock w1, u) # new"])
qed

lemma attempt_request_paced:
  assumes "attempt_request u w s = (r, w', s')" and "paced d tr0 w s"
    and "d = rate_limit (config s)"
  shows "paced d tr0 w' s'"
proof -
  let ?w1 = "if clock w - last_request_time s < d
             then elapse (d - (clock w - last_request_time s)) w else w"
  have "paced d tr0 (snd (http_get u ?w1)) (s\<lparr>last_request_time := clock ?w1\<rparr>)"
    by (rule paced_request [OF assms(2,3)]) simp
  moreover have "w' = snd (http_get u ?w1) \<and> s' = s\<lparr>last_request_time := clock ?w1\<rparr>"
    using assms(1,3)
    by (auto simp: attempt_request_def respect_rate_limit_eq Let_def
        split: sum.splits prod.splits if_splits)
  ultimately show ?thesis by simp
qed

lemma make_request_from_paced:
  "make_request_from u atts w s = (r, w', s') \<Longrightarrow> paced d tr0 w s \<Longrightarrow>
     d = rate_limit (config s) \<Longrightarrow> paced d tr0 w' s'"
proof (induction atts arbitrary: w s)
  case Nil
  then show ?case by auto
next
  case (Cons attempt rest)
  obtain r1 w1 s1 where a: "attempt_request u w s = (r1, w1, s1)"
    by (cases "attempt_request u w s") auto
  note p1 = attempt_request_paced [OF a Cons.prems(2,3)]
  from attempt_request_frame [OF a] Cons.prems(3) have d1: "d = rate_limit (config s1)"
    by (auto dest: retimed_fields)
  show ?case
  proof (cases r1)
    case (Inr x)
    with Cons.prems a p1 show ?thesis by auto
  next
    case (Inl e)
    show ?thesis
    proof (cases "is_request_exception e \<and> int attempt \<noteq> max_retries (config s1) - 1")
      case False
      with Cons.prems a p1 Inl show ?thesis by (auto split: if_splits)
    next
      case True
      have sl: "time_sleep (2 ^ attempt) w1 = Inr (elapse (2 ^ attempt) w1)"
        by (rule time_sleep_nonneg) simp
      from Cons.prems a Inl True sl
      have rec: "make_request_from u rest (elapse (2 ^ attempt) w1) s1 = (r, w', s')"
        by simp
      have "paced d tr0 (elapse (2 ^ attempt) w1) s1"
        by (rule paced_elapse [OF p1]) simp
      from Cons.IH [OF rec this d1] show ?thesis .
    qed
  qed
qed

lemma scrape_page_paced:
  assumes "scrape_page lib p w s = (r, w', s')" and "paced d tr0 w s"
    and "d = rate_limit (config s)"
  shows "paced d tr0 w' s'"
proof -
  obtain r1 w1 s1 where m: "make_request (page_url (config s) p) w s = (r1, w1, s1)"
    by (cases "make_request (page_url (config s) p) w s") auto
  from m have "paced d tr0 w1 s1"
    unfolding make_request_def by (rule make_request_from_paced) (rule assms)+
  moreover from assms(1) m have "w' = w1 \<and> s' = s1"
    by (auto simp: scrape_page_def scrape_page_body_def split: sum.splits option.splits)
  ultimately show ?thesis by simp
qed

lemma scrape_loop_paced:
  "scrape_loop lib n pages acc w s = (r, w', s') \<Longrightarrow> paced d tr0 w s \<Longrightarrow>
     d = rate_limit (config s) \<Longrightarrow> paced d tr0 w' s'"
proof (induction pages arbitrary: acc w s)
  case Nil
  then show ?case by simp
next
  case (Cons page pages)
  show ?case
  proof (cases "stop_flag s")
    case True
    with Cons.prems show ?thesis by simp
  next
    case False
    obtain r1 w1 s1 where pg: "scrape_page lib page w s = (r1, w1, s1)"
      by (cases "scrape_page lib page w s") auto
    note p1 = scrape_page_paced [OF pg Cons.prems(2,3)]
    from scrape_page_frame [OF pg] Cons.prems(3) have d1: "d = rate_limit (config s1)"
      by (auto dest: retimed_fields)
    show ?thesis
    proof (cases r1)
      case (Inl e)
      with Cons.prems False pg p1 show ?thesis by simp
    next
      case (Inr page_stories)
      show ?thesis
      proof (cases "page < n")
        case nolast: True
        show ?thesis
        proof (cases "time_sleep (rate_limit (config s1)) w1")
          case (Inl e)
          with Cons.prems False pg p1 Inr nolast show ?thesis by simp
        next
          case sl: (Inr w2)
          with Cons.prems False pg Inr nolast
          have "scrape_loop lib n pages (acc @ page_stories) w2 s1 = (r, w', s')" by simp
          from Cons.IH [OF this paced_time_sleep [OF p1 sl] d1] show ?thesis .
        qed
      next
        case last: False
        with Cons.prems \<open>\<not> stop_flag s\<close> pg Inr
        have "scrape_loop lib n pages (acc @ page_stories) w1 s1 = (r, w', s')" by simp
        from Cons.IH [OF this p1 d1] show ?thesis .
      qed
    qed
  qed
qed

lemma scrape_stories_paced:
  assumes "steady w"
  shows "spaced (rate_limit (config s))
           (requests_since w (fst (snd (scrape_stories lib n w s))))"
proof -
  obtain r1 w1 s1 where l: "scrape_loop lib n [1 .. n] [] w s = (r1, w1, s1)"
    by (cases "scrape_loop lib n [1 .. n] [] w s") auto
  from scrape_loop_paced [OF l paced_start [OF assms] refl]
  have "paced (rate_limit (config s)) (trace w) w1 s1" .
  from paced_requests_since [OF this] l show ?thesis
    by (auto simp: scrape_stories_def split: sum.splits)
qed

lemma paced_no_request:
  fixes s :: "'a scraper_base_scheme"
  assumes p: "paced d tr0 w s" and d: "d = rate_limit (config s)"
    and w1: "w1 = (if clock w - last_request_time s < d
                   then elapse (d - (clock w - last_request_time s)) w else w)"
  shows "paced d tr0 w1 (s\<lparr>last_request_time := clock w1\<rparr>)"
proof -
  from p obtain new where new: "trace w = new @ tr0" "spaced d (map fst new)"
      "new \<noteq> [] \<Longrightarrow> fst (hd new) \<le> last_request_time s \<and> last_request_time s \<le> clock w"
    and st: "steady w"
    by (auto simp: paced_def)
  from st have j: "0 \<le> jitter w k" for k by (simp add: steady_def)
  have "trace w1 = new @ tr0" "steady w1"
    using new(1) st w1 by auto
  moreover have "fst (hd new) \<le> clock w1" if "new \<noteq> []"
    using new(3) [OF that] j [of "events w"] by (auto simp: w1)
  ultimately show ?thesis
    using new(2) by (auto simp: paced_def)
qed

lemma async_attempt_paced:
  assumes "async_attempt u w s = (r, w', s')" and "paced d tr0 w s"
    and "d = rate_limit (config s)"
  shows "paced d tr0 w' s'"
proof -
  let ?w1 = "if clock w - last_request_time s < d
             then elapse (d - (clock w - last_request_time s)) w else w"
  let ?s1 = "s\<lparr>last_request_time := clock ?w1\<rparr>"
  have a: "paced d tr0 (snd (http_get u ?w1)) ?s1"
    by (rule paced_request [OF assms(2,3)]) simp
  have b: "paced d tr0 ?w1 ?s1"
    by (rule paced_no_request [OF assms(2,3)]) simp
  have "s' = ?s1 \<and> (w' = snd (http_get u ?w1) \<or> w' = ?w1)"
    using assms(1,3)
    by (auto simp: async_attempt_def async_respect_rate_limit_def asyncio_sleep_def
        session_get_def Let_def
        split: sum.splits prod.splits if_splits session.splits)
  with a b show ?thesis by auto
qed

lemma async_make_request_from_paced:
  "async_make_request_from u atts w s = (r, w', s') \<Longrightarrow> paced d tr0 w s \<Longrightarrow>
     d = rate_limit (config s) \<Longrightarrow> paced d tr0 w' s'"
proof (induction atts arbitrary: w s)
  case Nil
  then show ?case by auto
next
  case (Cons attempt rest)
  obtain r1 w1 s1 where a: "async_attempt u w s = (r1, w1, s1)"
    by (cases "async_attempt u w s") auto
  note p1 = async_attempt_paced [OF a Cons.prems(2,3)]
  from async_attempt_frame [OF a] Cons.prems(3) have d1: "d = rate_limit (config s1)"
    by (auto dest: retimed_fields)
  show ?case
  proof (cases r1)
    case (Inr x)
    with Cons.prems a p1 show ?thesis by auto
  next
    case (Inl e)
    show ?thesis
    proof (cases "int attempt = max_retries (config s1) - 1")
      case True
      with Cons.prems a p1 Inl show ?thesis by auto
    next
      case False
      with Cons.prems a Inl
      have rec: "async_make_request_from u rest (asyncio_sleep (2 ^ attempt) w1) s1 = (r, w', s')"
        by simp
      from Cons.IH [OF rec paced_asyncio_sleep [OF p1] d1] show ?thesis .
    qed
  qed
qed

lemma async_scrape_page_paced:
  assumes "async_scrape_page lib p w s = (r, w', s')" and "paced d tr0 w s"
    and "d = rate_limit (config s)"
  shows "paced d tr0 w' s'"
proof -
  obtain r1 w1 s1 where m: "async_make_request (page_url (config s) p) w s = (r1, w1, s1)"
    by (cases "async_make_request (page_url (config s) p) w s") auto
  from m have "paced d tr0 w1 s1"
    unfolding async_make_request_def by (rule async_make_request_from_paced) (rule assms)+
  moreover from assms(1) m have "w' = w1 \<and> s' = s1"
    by (auto simp: async_scrape_page_def async_scrape_page_body_def
        split: sum.splits option.splits)
  ultimately show ?thesis by simp
qed

lemma async_scrape_loop_paced:
  "async_scrape_loop lib n pages acc w s = (r, w', s') \<Longrightarrow> paced d tr0 w s \<Longrightarrow>
     d = rate_limit (config s) \<Longrightarrow> paced d tr0 w' s'"
proof (induction pages arbitrary: acc w s)
  case Nil
  then show ?case by simp
next
  case (Cons page pages)
  show ?case
  proof (cases "stop_flag s")
    case True
    with Cons.prems show ?thesis by simp
  next
    case False
    obtain r1 w1 s1 where pg: "async_scrape_page lib page w s = (r1, w1, s1)"
      by (cases "async_scrape_page lib page w s") auto
    note p1 = async_scrape_page_paced [OF pg Cons.prems(2,3)]
    from async_scrape_page_frame [OF pg] Cons.prems(3) obtain page_stories'
      where d1: "d = rate_limit (config s1)" and r1: "r1 = Inr page_stories'"
      by (auto dest: retimed_fields)
    let ?w2 = "if page < n then asyncio_sleep (rate_limit (config s1)) w1 else w1"
    from Cons.prems False pg r1
    have rec: "async_scrape_loop lib n pages (acc @ page_stories') ?w2 s1 = (r, w', s')"
      by (simp split: if_splits)
    have "paced d tr0 ?w2 s1"
      using p1 by (simp add: paced_asyncio_sleep)
    from Cons.IH [OF rec this d1] show ?thesis .
  qed
qed

lemma paced_session [simp]:
  "paced d tr0 w (a\<lparr>session := x\<rparr>) = paced d tr0 w a"
  by (simp add: paced_def)

lemma async_scrape_stories_paced:
  assumes "steady w"
  shows "spaced (rate_limit (config a))
           (requests_since w (fst (snd (async_scrape_stories lib n w a))))"
proof -
  let ?a = "a\<lparr>session := OpenSession\<rparr>"
  obtain r1 w1 a1 where l: "async_scrape_loop lib n [1 .. n] [] w ?a = (r1, w1, a1)"
    by (cases "async_scrape_loop lib n [1 .. n] [] w ?a") auto
  have "paced (rate_limit (config ?a)) (trace w) w ?a"
    by (rule paced_start [OF assms])
  from async_scrape_loop_paced [OF l this refl]
  have "paced (rate_limit (config a)) (trace w) w1 a1" by simp
  from paced_requests_since [OF this] l show ?thesis
    by (auto simp: async_scrape_stories_def split: sum.splits)
qed

lemma respect_rate_limit_waits:
  assumes "steady w"
  shows "case respect_rate_limit w s of
           (r, w1, s1) \<Rightarrow> r = Inr () \<and> last_request_time s + rate_limit (config s) \<le> clock w1
              \<and> last_request_time s1 = clock w1"
proof -
  from assms have "0 \<le> jitter w (events w)" by (simp add: steady_def)
  then show ?thesis by (simp add: respect_rate_limit_eq Let_def)
qed

lemma async_respect_rate_limit_waits:
  assumes "steady w"
  shows "case async_respect_rate_limit w a of
           (w1, a1) \<Rightarrow> last_request_time a + rate_limit (config a) \<le> clock w1
              \<and> last_request_time a1 = clock w1"
proof -
  from assms have "0 \<le> jitter w (events w)" by (simp add: steady_def)
  then show ?thesis by (simp add: async_respect_rate_limit_def asyncio_sleep_def Let_def)
qed

text \<open>
  Claim C9. In a world whose events never end early, the requests a run of
  \<open>scrape_stories\<close> makes, in either scraper and for every number of pages, start at
  least \<open>rate_limit\<close> apart, each from the one before it. The step that comes before
  every request reads the clock, sleeps for what is left of the interval since the time
  noted for the last request, and notes the time at which it ends: that time is at least
  \<open>rate_limit\<close> after the time noted before.
\<close>

theorem requests_keep_the_rate_limit:
  assumes "steady w"
  shows "spaced (rate_limit (config s))
           (requests_since w (fst (snd (scrape_stories lib n w s))))
       \<and> spaced (rate_limit (config a))
           (requests_since w (fst (snd (async_scrape_stories lib n w a))))
       \<and> (case respect_rate_limit w s of
             (r, w1, s1) \<Rightarrow> r = Inr ()
                \<and> last_request_time s + rate_limit (config s) \<le> clock w1
                \<and> last_request_time s1 = clock w1)
       \<and> (case async_respect_rate_limit w a of
             (w1, a1) \<Rightarrow> last_request_time a + rate_limit (config a) \<le> clock w1
                \<and> last_request_time a1 = clock w1)"
  by (intro conjI scrape_stories_paced [OF assms] async_scrape_stories_paced [OF assms]
      respect_rate_limit_waits [OF assms] async_respect_rate_limit_waits [OF assms])

lemma steady_example [simp]: "steady (example_world resp)"
  by (simp add: steady_def example_world_def)

theorem requests_keep_the_rate_limit_witness:
  "steady (example_world second_page_fails)
   \<and> spaced (rate_limit (config (fresh_scraper default_config)))
       (requests_since (example_world second_page_fails)
          (fst (snd (scrape_stories example_lib 2 (example_world second_page_fails)
                       (fresh_scraper default_config)))))
   \<and> spaced (rate_limit (config (fresh_async_scraper default_config)))
       (requests_since (example_world second_page_fails)
          (fst (snd (async_scrape_stories example_lib 2 (example_world second_page_fails)
                       (fresh_async_scraper default_config)))))"
  using requests_keep_the_rate_limit [OF steady_example [of second_page_fails],
      where s = "fresh_scraper default_config" and a = "fresh_async_scraper default_config"
      and lib = example_lib and n = 2]
  by simp

section \<open>The exclusion policy at construction\<close>

lemma init_robots_unreachable:
  assumes "net w (length (trace w)) (urljoin lib (base_url cfg) ''robots.txt'') = Inl e"
  shows "fst (init lib cfg w) = Inl (RobotsTxtError (''Failed to load robots.txt: '' @ str_error e))"
  using assms by (simp add: init_def load_robots_txt_def http_get_def Let_def)

lemma init_robots_loaded_once:
  assumes "net w (length (trace w)) (urljoin lib (base_url cfg) ''robots.txt'') = Inr r"
    and "user_agents cfg \<noteq> []"
  shows "fst (init lib cfg w) = Inr ((fresh_scraper cfg)\<lparr>robot_parser := Some (resp_text r)\<rparr>)
       \<and> trace (snd (init lib cfg w))
           = (clock w, urljoin lib (base_url cfg) ''robots.txt'') # trace w"
  using assms
  by (simp add: init_def load_robots_txt_def http_get_def Let_def choose_user_agent_def
      fresh_scraper_def)

lemma async_init_eq: "async_init lib cfg w = ((Inr (fresh_async_scraper cfg), w), [])"
  by (simp add: async_init_def fresh_async_scraper_def)

lemma awaited_load_would_parse:
  assumes "net w (length (trace w)) (urljoin lib (base_url (config a)) ''robots.txt'') = Inr r"
  shows "robot_parser (snd (fst (async_load_robots_txt lib w a))) = Some (resp_text r)"
  using assms by (simp add: async_load_robots_txt_def http_get_def Let_def)

lemma awaited_load_would_warn:
  assumes "net w (length (trace w)) (urljoin lib (base_url (config a)) ''robots.txt'') = Inl e"
  shows "snd (async_load_robots_txt lib w a) = [''Failed to load robots.txt: '' @ str_error e]
     \<and> robot_parser (snd (fst (async_load_robots_txt lib w a))) = robot_parser a"
  using assms by (simp add: async_load_robots_txt_def http_get_def Let_def)

text \<open>
  Claim C3 at a world that serves robots.txt: the constructor of the concurrent scraper
  returns a scraper whose exclusion parser has parsed nothing, makes no request and logs
  nothing, where the constructor of the sequential scraper makes the one request and
  parses its text. At a world that serves nothing the sequential constructor raises
  \<open>RobotsTxtError\<close>, and the concurrent one again returns the scraper and logs nothing.
\<close>

theorem async_init_leaves_robots_txt_unread:
  "async_init example_lib default_config (example_world both_pages_served)
     = ((Inr (fresh_async_scraper default_config), example_world both_pages_served), [])
   \<and> robot_parser (fresh_async_scraper default_config) = None
   \<and> trace (example_world both_pages_served) = []
   \<and> fst (init example_lib default_config (example_world both_pages_served))
       = Inr ((fresh_scraper default_config)\<lparr>robot_parser := Some ''User-agent: * Disallow: /''\<rparr>)
   \<and> map snd (trace (snd (init example_lib default_config (example_world both_pages_served))))
       = [''https://news.ycombinator.com/robots.txt'']
   \<and> async_init example_lib default_config (example_world nothing_served)
       = ((Inr (fresh_async_scraper default_config), example_world nothing_served), [])
   \<and> fst (init example_lib default_config (example_world nothing_served))
       = Inl (RobotsTxtError ''Failed to load robots.txt: connection refused'')"
proof -
  have u: "urljoin example_lib (base_url default_config) ''robots.txt''
      = ''https://news.ycombinator.com/robots.txt''"
    by (simp add: example_lib_def default_config_def default_base_url_def)
  have n1: "net (example_world both_pages_served) (length (trace (example_world both_pages_served)))
       (urljoin example_lib (base_url default_config) ''robots.txt'')
      = Inr \<lparr>status_code = 200, resp_text = ''User-agent: * Disallow: /''\<rparr>"
    unfolding u by (simp add: example_world_def both_pages_served_def)
  have n2: "net (example_world nothing_served) (length (trace (example_world nothing_served)))
       (urljoin example_lib (base_url default_config) ''robots.txt'')
      = Inl (RequestException ''connection refused'')"
    by (simp add: example_world_def nothing_served_def)
  have ua: "user_agents default_config \<noteq> []" by (simp add: default_config_def)
  have t0: "trace (example_world both_pages_served) = []"
      "clock (example_world both_pages_served) = 1000"
    by (simp_all add: example_world_def)
  from init_robots_loaded_once [OF n1 ua]
  have i1: "fst (init example_lib default_config (example_world both_pages_served))
       = Inr ((fresh_scraper default_config)\<lparr>robot_parser := Some ''User-agent: * Disallow: /''\<rparr>)"
    and i2: "map snd (trace (snd (init example_lib default_config (example_world both_pages_served))))
       = [''https://news.ycombinator.com/robots.txt'']"
    unfolding u t0 by simp_all
  from init_robots_unreachable [OF n2]
  have i3: "fst (init example_lib default_config (example_world nothing_served))
       = Inl (RobotsTxtError ''Failed to load robots.txt: connection refused'')"
    by simp
  have i4: "robot_parser (fresh_async_scraper default_config) = None"
    by (simp add: fresh_async_scraper_def)
  from i1 i2 i3 i4 t0(1) show ?thesis
    by (simp only: async_init_eq simp_thms)
qed

end
